theory Spec2Isabelle
  imports Main
begin

section \<open>JSON values and the jsonb merge\<close>

text \<open>
  Settings, stream data and error columns hold JSON. An object is a list of
  key/value pairs read with \<open>map_of\<close>.
\<close>

datatype json =
    JNull
  | JBool bool
  | JNum int
  | JStr string
  | JArr "json list"
  | JObj "(string \<times> json) list"

text \<open>
  PostgreSQL's \<open>jsonb || jsonb\<close>: two objects give the union of their keys, the
  right operand winning on a key of both; any other pair is concatenated as arrays, a
  non-array operand counting as a one-element array. Nested objects are not merged.
\<close>

definition obj_merge :: "(string \<times> json) list \<Rightarrow> (string \<times> json) list \<Rightarrow> (string \<times> json) list" where
  "obj_merge old new = filter (\<lambda>kv. fst kv \<notin> fst ` set new) old @ new"

fun as_array :: "json \<Rightarrow> json list" where
  "as_array (JArr xs) = xs"
| "as_array v = [v]"

fun jsonb_concat :: "json \<Rightarrow> json \<Rightarrow> json" where
  "jsonb_concat (JObj old) (JObj new) = JObj (obj_merge old new)"
| "jsonb_concat x y = JArr (as_array x @ as_array y)"

text \<open>An SQL operator applied to NULL gives NULL.\<close>

definition sql_jsonb_concat :: "json option \<Rightarrow> json option \<Rightarrow> json option" where
  "sql_jsonb_concat a b =
     (case a of None \<Rightarrow> None
      | Some x \<Rightarrow> (case b of None \<Rightarrow> None | Some y \<Rightarrow> Some (jsonb_concat x y)))"

text \<open>JavaScript truthiness of a JSON value (\<open>stream.data ? ... : null\<close>).\<close>

fun truthy :: "json \<Rightarrow> bool" where
  "truthy JNull = False"
| "truthy (JBool b) = b"
| "truthy (JNum n) = (n \<noteq> 0)"
| "truthy (JStr s) = (s \<noteq> [])"
| "truthy (JArr xs) = True"
| "truthy (JObj kvs) = True"


section \<open>Rows, tables and thrown errors\<close>

type_synonym uuid = string
type_synonym time = int  \<comment> \<open>milliseconds since the epoch, as \<open>Date.getTime()\<close>\<close>

datatype IntegrationRunState = R_PENDING | R_PROCESSING | R_DELAYED | R_ERROR | R_PROCESSED

datatype IntegrationStreamState = S_PENDING | S_PROCESSING | S_DELAYED | S_ERROR | S_PROCESSED

datatype IntegrationStreamType = ROOT | CHILD

datatype thrown =
    RateLimitError (rateLimitResetSeconds: int)
  | Error (message_of: string)

record run_row =
  r_tenantId :: string
  r_integrationId :: uuid
  r_microserviceId :: "uuid option"
  r_onboarding :: bool
  r_state :: IntegrationRunState
  r_delayedUntil :: "time option"
  r_processedAt :: "time option"
  r_error :: "json option"
  r_updatedAt :: time

record stream_row =
  s_runId :: uuid
  s_parentId :: "uuid option"
  s_state :: IntegrationStreamState
  s_identifier :: string
  s_type :: "IntegrationStreamType option"
  s_data :: "json option"
  s_tenantId :: string
  s_integrationId :: uuid
  s_microserviceId :: "uuid option"
  s_delayedUntil :: "time option"
  s_retries :: int
  s_error :: "json option"
  s_processedAt :: "time option"
  s_updatedAt :: time

record integration_row =
  i_platform :: string
  i_identifier :: "string option"
  i_status :: string
  i_settings :: "json option"
  i_deleted :: bool
  i_updatedAt :: time

datatype IntegrationDataState = D_PENDING | D_PROCESSING | D_ERROR | D_PROCESSED

record data_row =
  d_streamId :: uuid
  d_runId :: uuid
  d_tenantId :: string
  d_data :: json
  d_state :: IntegrationDataState
  d_retries :: int

text \<open>
  The tables are keyed by their \<open>id\<close> column. The world also holds the two worker
  queues (group id and message), the clock that \<open>now()\<close> and \<open>new Date()\<close> read, and
  the list of streams for which a platform handler was started. One call is taken at
  one instant: no operation advances the clock.
\<close>

datatype queue_message = ProcessStream uuid | ProcessData uuid

record world =
  runs :: "uuid \<rightharpoonup> run_row"
  streams :: "uuid \<rightharpoonup> stream_row"
  integrations :: "uuid \<rightharpoonup> integration_row"
  data_rows :: "uuid \<rightharpoonup> data_row"
  stream_queue :: "(string \<times> queue_message) list"
  data_queue :: "(string \<times> queue_message) list"
  clock :: time
  invocations :: "uuid list"

text \<open>\<open>update t set ... where id = k\<close>: the new table and the row count.\<close>

definition update_where_id :: "('k \<rightharpoonup> 'r) \<Rightarrow> 'k \<Rightarrow> ('r \<Rightarrow> 'r) \<Rightarrow> ('k \<rightharpoonup> 'r) \<times> nat" where
  "update_where_id t k f = (case t k of None \<Rightarrow> (t, 0) | Some r \<Rightarrow> (t(k \<mapsto> f r), 1))"

text \<open>
  Modelled from the spec: \<open>RepositoryBase.checkUpdateRowCount\<close> of the database library
  is not among the sources. Every repository method calls it on the row count of its
  statement with the count it expects; it is taken to throw when the two differ.
\<close>

definition checkUpdateRowCount :: "nat \<Rightarrow> nat \<Rightarrow> thrown + unit" where
  "checkUpdateRowCount rowCount expected =
     (if rowCount \<noteq> expected then Inl (Error ''Updated number of rows not equal to expected number!'')
      else Inr ())"


section \<open>IntegrationRunRepository (integration run worker)\<close>

text \<open>\<open>markRunError\<close>: state, processedAt, error and updatedAt of the run row.\<close>

definition markRunError :: "uuid \<Rightarrow> json \<Rightarrow> world \<Rightarrow> thrown + world" where
  "markRunError runId error w =
     (let (runs', rowCount) = update_where_id (runs w) runId
            (\<lambda>r. r\<lparr>r_state := R_ERROR, r_processedAt := Some (clock w),
                   r_error := Some error, r_updatedAt := clock w\<rparr>)
      in case checkUpdateRowCount rowCount 1 of
           Inl e \<Rightarrow> Inl e
         | Inr u \<Rightarrow> Inr (w\<lparr>runs := runs'\<rparr>))"

text \<open>
  \<open>updateIntegrationSettings\<close>: the integration is the one the run's row names (the
  subquery gives NULL when there is no such run, and then no row matches).
\<close>

definition updateIntegrationSettings :: "uuid \<Rightarrow> json \<Rightarrow> world \<Rightarrow> thrown + world" where
  "updateIntegrationSettings runId settings w =
     (let (integrations', rowCount) =
            (case map_option r_integrationId (runs w runId) of
               None \<Rightarrow> (integrations w, 0)
             | Some iid \<Rightarrow> update_where_id (integrations w) iid
                 (\<lambda>i. i\<lparr>i_settings := sql_jsonb_concat (i_settings i) (Some settings),
                        i_updatedAt := clock w\<rparr>))
      in case checkUpdateRowCount rowCount 1 of
           Inl e \<Rightarrow> Inl e
         | Inr u \<Rightarrow> Inr (w\<lparr>integrations := integrations'\<rparr>))"

record IIntegrationStream =
  st_identifier :: string
  st_type :: IntegrationStreamType
  st_data :: "json option"

text \<open>
  \<open>publishStream\<close>: \<open>newId\<close> is the value \<open>generateUUIDv1()\<close> returned. The statement
  inserts one row for each run row with the given id, with no condition on the rows
  already in the table; a second row under an existing key is refused by the table.
\<close>

definition publishStream :: "uuid \<Rightarrow> uuid \<Rightarrow> IIntegrationStream \<Rightarrow> world \<Rightarrow> thrown + (uuid \<times> world)" where
  "publishStream newId runId stream w =
     (case runs w runId of
        None \<Rightarrow> (case checkUpdateRowCount 0 1 of Inl e \<Rightarrow> Inl e | Inr u \<Rightarrow> Inr (newId, w))
      | Some r \<Rightarrow>
          (if streams w newId \<noteq> None then Inl (Error ''duplicate key value violates unique constraint'')
           else case checkUpdateRowCount 1 1 of
             Inl e \<Rightarrow> Inl e
           | Inr u \<Rightarrow> Inr (newId, w\<lparr>streams := (streams w)(newId \<mapsto>
               \<lparr>s_runId = runId, s_parentId = None, s_state = S_PENDING,
                s_identifier = st_identifier stream, s_type = Some (st_type stream),
                s_data = (case st_data stream of None \<Rightarrow> None
                          | Some d \<Rightarrow> if truthy d then Some d else None),
                s_tenantId = r_tenantId r, s_integrationId = r_integrationId r,
                s_microserviceId = r_microserviceId r, s_delayedUntil = None,
                s_retries = 0, s_error = None, s_processedAt = None,
                s_updatedAt = clock w\<rparr>)\<rparr>)))"


section \<open>Promises over the world\<close>

text \<open>
  An \<open>async\<close> method is a function of the world giving the world it leaves and either
  the value it resolves with (\<open>Inr\<close>) or the error it rejects with (\<open>Inl\<close>).
\<close>

type_synonym 'a promise = "world \<Rightarrow> (thrown + 'a) \<times> world"

definition resolve :: "'a \<Rightarrow> 'a promise" where
  "resolve x w = (Inr x, w)"

definition reject :: "thrown \<Rightarrow> 'a promise" where
  "reject e w = (Inl e, w)"

definition await :: "'a promise \<Rightarrow> ('a \<Rightarrow> 'b promise) \<Rightarrow> 'b promise" where
  "await m f w = (case m w of (Inl e, w') \<Rightarrow> (Inl e, w') | (Inr x, w') \<Rightarrow> f x w')"

definition try_catch :: "'a promise \<Rightarrow> (thrown \<Rightarrow> 'a promise) \<Rightarrow> 'a promise" where
  "try_catch m h w = (case m w of (Inl e, w') \<Rightarrow> h e w' | (Inr x, w') \<Rightarrow> (Inr x, w'))"

text \<open>One SQL statement: it either fails and changes nothing, or gives the new world.\<close>

definition stmt :: "(world \<Rightarrow> thrown + world) \<Rightarrow> unit promise" where
  "stmt q w = (case q w of Inl e \<Rightarrow> (Inl e, w) | Inr w' \<Rightarrow> (Inr (), w'))"

definition new_Date :: "time promise" where
  "new_Date w = (Inr (clock w), w)"

text \<open>
  Modelled from the spec: \<open>addSeconds\<close> of the common library is not among the sources;
  the spec reads it as \<open>now + seconds\<close>. Dates count milliseconds.
\<close>

definition addSeconds :: "time \<Rightarrow> int \<Rightarrow> time" where
  "addSeconds date seconds = date + 1000 * seconds"

text \<open>
  A \<open>Date\<close> holds a time at most 8640000000000000 milliseconds away from the epoch.
  Beyond that it is an invalid date, for which \<open>toISOString\<close> throws a \<open>RangeError\<close>.
  The string it returns for a valid date is only logged.
\<close>

definition valid_Date :: "time \<Rightarrow> bool" where
  "valid_Date t \<longleftrightarrow> - 8640000000000000 \<le> t \<and> t \<le> 8640000000000000"

definition toISOString :: "time \<Rightarrow> unit promise" where
  "toISOString t =
     (if valid_Date t then resolve () else reject (Error ''RangeError: Invalid time value''))"


section \<open>IntegrationStreamRepository (integration stream worker)\<close>

text \<open>What \<open>getStreamData\<close> returns: the stream joined with its run and integration.\<close>

record stream_info =
  si_onboarding :: bool
  si_integrationId :: uuid
  si_integrationType :: string
  si_integrationState :: string
  si_integrationIdentifier :: "string option"
  si_integrationSettings :: "json option"
  si_runState :: IntegrationRunState
  si_runId :: uuid
  si_tenantId :: string
  si_identifier :: string
  si_parentId :: "uuid option"
  si_data :: "json option"
  si_retries :: int

text \<open>
  Modelled from the spec: the stream worker's repository is not among the sources.
  \<open>getStreamData\<close> loads the stream with its run and integration joined and gives
  nothing when one is missing (section 4.3, step 1); the integration must not be
  deleted, as in the run worker's query.
\<close>

definition getStreamData :: "uuid \<Rightarrow> world \<Rightarrow> stream_info option" where
  "getStreamData streamId w =
     (case streams w streamId of
        None \<Rightarrow> None
      | Some s \<Rightarrow>
          (case runs w (s_runId s) of
             None \<Rightarrow> None
           | Some r \<Rightarrow>
               (case integrations w (r_integrationId r) of
                  None \<Rightarrow> None
                | Some i \<Rightarrow>
                    if i_deleted i then None
                    else Some \<lparr>si_onboarding = r_onboarding r,
                               si_integrationId = r_integrationId r,
                               si_integrationType = i_platform i,
                               si_integrationState = i_status i,
                               si_integrationIdentifier = i_identifier i,
                               si_integrationSettings = i_settings i,
                               si_runState = r_state r,
                               si_runId = s_runId s,
                               si_tenantId = s_tenantId s,
                               si_identifier = s_identifier s,
                               si_parentId = s_parentId s,
                               si_data = s_data s,
                               si_retries = s_retries s\<rparr>)))"

text \<open>
  Modelled from the spec: a statement of the stream worker's repository updates the one
  row with the given id and checks the row count, as every method of the run worker's
  repository does.
\<close>

definition update_stream :: "uuid \<Rightarrow> (stream_row \<Rightarrow> stream_row) \<Rightarrow> world \<Rightarrow> thrown + world" where
  "update_stream streamId f w =
     (let (streams', rowCount) = update_where_id (streams w) streamId f
      in case checkUpdateRowCount rowCount 1 of
           Inl e \<Rightarrow> Inl e
         | Inr u \<Rightarrow> Inr (w\<lparr>streams := streams'\<rparr>))"

definition update_run :: "uuid \<Rightarrow> (run_row \<Rightarrow> run_row) \<Rightarrow> world \<Rightarrow> thrown + world" where
  "update_run runId f w =
     (let (runs', rowCount) = update_where_id (runs w) runId f
      in case checkUpdateRowCount rowCount 1 of
           Inl e \<Rightarrow> Inl e
         | Inr u \<Rightarrow> Inr (w\<lparr>runs := runs'\<rparr>))"

text \<open>
  Modelled from the spec: \<open>markRunError\<close> of the stream worker's repository marks the
  run ERROR with the structured error; it is taken to be the statement of the run
  worker's \<open>markRunError\<close>.
\<close>

definition repo_markRunError :: "uuid \<Rightarrow> json \<Rightarrow> world \<Rightarrow> thrown + world" where
  "repo_markRunError runId error w = markRunError runId error w"

text \<open>
  Modelled from the spec: \<open>markStreamError\<close> records the error on the stream, marks it
  ERROR (section 4.3, steps 2, 3 and 6) and counts the failure in retries: a stream
  that errors at retries = maxStreamRetries ends ERROR at maxStreamRetries + 1
  (section 8, invariants and scenario 3), and on that path \<open>processStream\<close> runs no
  other statement on the stream.
\<close>

definition repo_markStreamError :: "uuid \<Rightarrow> json \<Rightarrow> world \<Rightarrow> thrown + world" where
  "repo_markStreamError streamId error w =
     update_stream streamId
       (\<lambda>s. s\<lparr>s_state := S_ERROR, s_error := Some error,
              s_retries := s_retries s + 1, s_updatedAt := clock w\<rparr>) w"

text \<open>
  Modelled from the spec: \<open>markStreamInProgress\<close> marks the stream PROCESSING and
  refuses re-entry from the terminal states PROCESSED and ERROR (section 3,
  ownership): there the guarded statement matches no row.
\<close>

definition repo_markStreamInProgress :: "uuid \<Rightarrow> world \<Rightarrow> thrown + world" where
  "repo_markStreamInProgress streamId w =
     (case streams w streamId of
        None \<Rightarrow> (case checkUpdateRowCount 0 1 of Inl e \<Rightarrow> Inl e | Inr u \<Rightarrow> Inr w)
      | Some s \<Rightarrow>
          if s_state s = S_PROCESSED \<or> s_state s = S_ERROR
          then (case checkUpdateRowCount 0 1 of Inl e \<Rightarrow> Inl e | Inr u \<Rightarrow> Inr w)
          else update_stream streamId
                 (\<lambda>s. s\<lparr>s_state := S_PROCESSING, s_updatedAt := clock w\<rparr>) w)"

text \<open>Modelled from the spec: \<open>markStreamProcessed\<close> marks the stream PROCESSED (section 4.3, step 5).\<close>

definition repo_markStreamProcessed :: "uuid \<Rightarrow> world \<Rightarrow> thrown + world" where
  "repo_markStreamProcessed streamId w =
     update_stream streamId
       (\<lambda>s. s\<lparr>s_state := S_PROCESSED, s_processedAt := Some (clock w), s_updatedAt := clock w\<rparr>) w"

text \<open>
  Modelled from the spec: \<open>resetStream\<close> resets the stream to PENDING and does not
  increment retries (section 4.3, step 6).
\<close>

definition repo_resetStream :: "uuid \<Rightarrow> world \<Rightarrow> thrown + world" where
  "repo_resetStream streamId w =
     update_stream streamId
       (\<lambda>s. s\<lparr>s_state := S_PENDING, s_delayedUntil := None, s_error := None,
              s_updatedAt := clock w\<rparr>) w"

text \<open>
  Modelled from the spec: \<open>delayStream\<close> transitions the stream to DELAYED with the given
  \<open>delayedUntil\<close> (section 4.3, step 6). The failure is counted in retries once, by
  \<open>markStreamError\<close>, which \<open>processStream\<close> calls before: three failures with
  maxStreamRetries = 2 end at retries 3 (section 8, scenario 3).
\<close>

definition repo_delayStream :: "uuid \<Rightarrow> time \<Rightarrow> world \<Rightarrow> thrown + world" where
  "repo_delayStream streamId until w =
     update_stream streamId
       (\<lambda>s. s\<lparr>s_state := S_DELAYED, s_delayedUntil := Some until,
              s_updatedAt := clock w\<rparr>) w"

text \<open>
  Modelled from the spec: \<open>delayRun\<close> transitions the run to DELAYED with the given
  \<open>delayedUntil\<close> (section 4.3, step 6).
\<close>

definition repo_delayRun :: "uuid \<Rightarrow> time \<Rightarrow> world \<Rightarrow> thrown + world" where
  "repo_delayRun runId until w =
     update_run runId
       (\<lambda>r. r\<lparr>r_state := R_DELAYED, r_delayedUntil := Some until, r_updatedAt := clock w\<rparr>) w"

text \<open>
  Modelled from the spec: \<open>publishStream\<close> of the stream worker's repository inserts a
  child stream row with \<open>parentId\<close> the publishing stream (section 4.3, step 4), as the
  run worker's \<open>publishStream\<close> inserts a root stream; \<open>newId\<close> is the id generated
  for the row.
\<close>

definition repo_publishStream ::
    "uuid \<Rightarrow> uuid \<Rightarrow> uuid \<Rightarrow> string \<Rightarrow> json option \<Rightarrow> world \<Rightarrow> thrown + (uuid \<times> world)" where
  "repo_publishStream newId parentId runId ident payload w =
     (case runs w runId of
        None \<Rightarrow> (case checkUpdateRowCount 0 1 of Inl e \<Rightarrow> Inl e | Inr u \<Rightarrow> Inr (newId, w))
      | Some r \<Rightarrow>
          (if streams w newId \<noteq> None then Inl (Error ''duplicate key value violates unique constraint'')
           else case checkUpdateRowCount 1 1 of
             Inl e \<Rightarrow> Inl e
           | Inr u \<Rightarrow> Inr (newId, w\<lparr>streams := (streams w)(newId \<mapsto>
               \<lparr>s_runId = runId, s_parentId = Some parentId, s_state = S_PENDING,
                s_identifier = ident, s_type = Some CHILD, s_data = payload,
                s_tenantId = r_tenantId r, s_integrationId = r_integrationId r,
                s_microserviceId = r_microserviceId r, s_delayedUntil = None,
                s_retries = 0, s_error = None, s_processedAt = None,
                s_updatedAt = clock w\<rparr>)\<rparr>)))"

text \<open>
  Modelled from the spec: \<open>publishData\<close> inserts a data row for the stream (section 4.3,
  step 4); \<open>newId\<close> is the id generated for the row.
\<close>

definition repo_publishData :: "uuid \<Rightarrow> uuid \<Rightarrow> json \<Rightarrow> world \<Rightarrow> thrown + (uuid \<times> world)" where
  "repo_publishData newId streamId payload w =
     (case streams w streamId of
        None \<Rightarrow> (case checkUpdateRowCount 0 1 of Inl e \<Rightarrow> Inl e | Inr u \<Rightarrow> Inr (newId, w))
      | Some s \<Rightarrow>
          (if data_rows w newId \<noteq> None then Inl (Error ''duplicate key value violates unique constraint'')
           else case checkUpdateRowCount 1 1 of
             Inl e \<Rightarrow> Inl e
           | Inr u \<Rightarrow> Inr (newId, w\<lparr>data_rows := (data_rows w)(newId \<mapsto>
               \<lparr>d_streamId = streamId, d_runId = s_runId s, d_tenantId = s_tenantId s,
                d_data = payload, d_state = D_PENDING, d_retries = 0\<rparr>)\<rparr>)))"

text \<open>
  Modelled from the spec: \<open>updateIntegrationSettings\<close> of the stream worker's repository
  merges the partial settings into the settings of the stream's integration with
  \<open>settings || partial\<close> (sections 4.3 and 5), by the statement of the run worker's
  \<open>updateIntegrationSettings\<close> with the stream's row naming the integration.
\<close>

definition repo_updateIntegrationSettings :: "uuid \<Rightarrow> json \<Rightarrow> world \<Rightarrow> thrown + world" where
  "repo_updateIntegrationSettings streamId settings w =
     (let (integrations', rowCount) =
            (case map_option s_integrationId (streams w streamId) of
               None \<Rightarrow> (integrations w, 0)
             | Some iid \<Rightarrow> update_where_id (integrations w) iid
                 (\<lambda>i. i\<lparr>i_settings := sql_jsonb_concat (i_settings i) (Some settings),
                        i_updatedAt := clock w\<rparr>))
      in case checkUpdateRowCount rowCount 1 of
           Inl e \<Rightarrow> Inl e
         | Inr u \<Rightarrow> Inr (w\<lparr>integrations := integrations'\<rparr>))"


section \<open>IntegrationStreamService (integration stream worker)\<close>

text \<open>
  Modelled from the spec: the queue senders of the stream worker are not among the
  sources. A sender enqueues a message that carries the id only, under the tenant id
  as group id (section 6).
\<close>

definition triggerStreamProcessing :: "string \<Rightarrow> uuid \<Rightarrow> world \<Rightarrow> thrown + world" where
  "triggerStreamProcessing tenantId streamId w =
     Inr (w\<lparr>stream_queue := stream_queue w @ [(tenantId, ProcessStream streamId)]\<rparr>)"

definition triggerDataProcessing :: "string \<Rightarrow> uuid \<Rightarrow> world \<Rightarrow> thrown + world" where
  "triggerDataProcessing tenantId dataId w =
     Inr (w\<lparr>data_queue := data_queue w @ [(tenantId, ProcessData dataId)]\<rparr>)"

text \<open>
  What the infrastructure does at one call of a publishing operation: nothing unusual,
  the database refuses the insert, or the queue refuses the message.
\<close>

datatype infra = InfraOk | PersistFails | EnqueueFails

definition persisting :: "infra \<Rightarrow> (world \<Rightarrow> thrown + ('a \<times> world)) \<Rightarrow> 'a promise" where
  "persisting env q w =
     (if env = PersistFails then (Inl (Error ''database error''), w)
      else case q w of Inl e \<Rightarrow> (Inl e, w) | Inr (x, w') \<Rightarrow> (Inr x, w'))"

definition enqueuing :: "infra \<Rightarrow> (world \<Rightarrow> thrown + world) \<Rightarrow> unit promise" where
  "enqueuing env q w = (if env = EnqueueFails then (Inl (Error ''queue error''), w) else stmt q w)"

text \<open>The error column holds \<open>JSON.stringify({location, message, metadata})\<close>.\<close>

definition error_json :: "string \<Rightarrow> string \<Rightarrow> json option \<Rightarrow> json" where
  "error_json location message metadata =
     JObj ([(''location'', JStr location), (''message'', JStr message)]
           @ (case metadata of None \<Rightarrow> [] | Some m \<Rightarrow> [(''metadata'', m)]))"

text \<open>
  \<open>JSON.stringify\<close> of a thrown value keeps its own enumerable properties: none for an
  \<open>Error\<close>, whose message is not enumerable, and the seconds for a \<open>RateLimitError\<close>.
\<close>

fun json_of_thrown :: "thrown \<Rightarrow> json" where
  "json_of_thrown (RateLimitError secs) = JObj [(''rateLimitResetSeconds'', JNum secs)]"
| "json_of_thrown (Error m) = JObj []"

fun json_of_run_state :: "IntegrationRunState \<Rightarrow> json" where
  "json_of_run_state R_PENDING = JStr ''pending''"
| "json_of_run_state R_PROCESSING = JStr ''processing''"
| "json_of_run_state R_DELAYED = JStr ''delayed''"
| "json_of_run_state R_ERROR = JStr ''error''"
| "json_of_run_state R_PROCESSED = JStr ''processed''"

definition triggerRunError :: "uuid \<Rightarrow> string \<Rightarrow> string \<Rightarrow> json option \<Rightarrow> unit promise" where
  "triggerRunError runId location message metadata =
     stmt (repo_markRunError runId (error_json location message metadata))"

definition triggerStreamError :: "uuid \<Rightarrow> string \<Rightarrow> string \<Rightarrow> json option \<Rightarrow> unit promise" where
  "triggerStreamError streamId location message metadata =
     stmt (repo_markStreamError streamId (error_json location message metadata))"

definition svc_updateIntegrationSettings :: "uuid \<Rightarrow> json \<Rightarrow> unit promise" where
  "svc_updateIntegrationSettings streamId settings =
     try_catch
       (stmt (repo_updateIntegrationSettings streamId settings))
       (\<lambda>err. await (triggerRunError streamId ''run-stream-update-settings''
                        ''Error while updating settings!''
                        (Some (JObj [(''error'', json_of_thrown err)])))
                 (\<lambda>u. reject err))"

text \<open>The \<open>try\<close> blocks of \<open>publishStream\<close> and \<open>publishData\<close>.\<close>

definition publish_child ::
    "infra \<Rightarrow> uuid \<Rightarrow> uuid \<Rightarrow> string \<Rightarrow> uuid \<Rightarrow> string \<Rightarrow> json option \<Rightarrow> unit promise" where
  "publish_child env newId parentId tenantId runId ident payload =
     await (persisting env (repo_publishStream newId parentId runId ident payload))
       (\<lambda>streamId. enqueuing env (triggerStreamProcessing tenantId streamId))"

definition publish_item :: "infra \<Rightarrow> uuid \<Rightarrow> string \<Rightarrow> uuid \<Rightarrow> json \<Rightarrow> unit promise" where
  "publish_item env newId tenantId streamId payload =
     await (persisting env (repo_publishData newId streamId payload))
       (\<lambda>dataId. enqueuing env (triggerDataProcessing tenantId dataId))"

definition svc_publishStream ::
    "infra \<Rightarrow> uuid \<Rightarrow> uuid \<Rightarrow> string \<Rightarrow> uuid \<Rightarrow> string \<Rightarrow> json option \<Rightarrow> unit promise" where
  "svc_publishStream env newId parentId tenantId runId ident payload =
     try_catch
       (publish_child env newId parentId tenantId runId ident payload)
       (\<lambda>err. await (triggerRunError runId ''run-publish-child-stream''
                        ''Error while publishing child stream!''
                        (Some (JObj [(''error'', json_of_thrown err)])))
                 (\<lambda>u. reject err))"

definition svc_publishData :: "infra \<Rightarrow> uuid \<Rightarrow> string \<Rightarrow> uuid \<Rightarrow> uuid \<Rightarrow> json \<Rightarrow> unit promise" where
  "svc_publishData env newId tenantId runId streamId payload =
     try_catch
       (publish_item env newId tenantId streamId payload)
       (\<lambda>err. await (triggerRunError runId ''run-publish-stream-data''
                        ''Error while publishing stream data!''
                        (Some (JObj [(''error'', json_of_thrown err)])))
                 (\<lambda>u. reject err))"

text \<open>
  The context handed to a platform handler: the snapshots it reads. Its operations are
  the calls of \<open>ctx_call\<close>.
\<close>

record IIntegration =
  int_id :: uuid
  int_identifier :: "string option"
  int_platform :: string
  int_status :: string
  int_settings :: "json option"

record IProcessStreamContext =
  ctx_onboarding :: bool
  ctx_integration :: IIntegration
  ctx_stream :: IIntegrationStream

datatype ctx_call =
    PublishData json
  | PublishStream string "json option"
  | UpdateIntegrationSettings json
  | AbortWithError string "json option"
  | AbortRunWithError string "json option"

text \<open>
  One execution of a platform handler: it returns, throws, or calls an operation of
  its context and goes on from the answer (\<open>None\<close>: the call resolved, \<open>Some e\<close>: it
  rejected with \<open>e\<close>). Each call comes with the id generated for the row it may insert
  and with what the infrastructure does at that call.
\<close>

datatype handler_run =
    Return
  | Throw thrown
  | Call ctx_call uuid infra "thrown option \<Rightarrow> handler_run"

definition answer :: "unit promise \<Rightarrow> world \<Rightarrow> thrown option \<times> world" where
  "answer m w = (case m w of (Inl e, w') \<Rightarrow> (Some e, w') | (Inr u, w') \<Rightarrow> (None, w'))"

text \<open>The closures of the context built in \<open>processStream\<close>.\<close>

fun context_call :: "stream_info \<Rightarrow> uuid \<Rightarrow> ctx_call \<Rightarrow> uuid \<Rightarrow> infra \<Rightarrow> unit promise" where
  "context_call streamInfo streamId (PublishData payload) newId env =
     svc_publishData env newId (si_tenantId streamInfo) (si_runId streamInfo) streamId payload"
| "context_call streamInfo streamId (PublishStream ident payload) newId env =
     svc_publishStream env newId streamId (si_tenantId streamInfo) (si_runId streamInfo) ident payload"
| "context_call streamInfo streamId (UpdateIntegrationSettings settings) newId env =
     svc_updateIntegrationSettings streamId settings"
| "context_call streamInfo streamId (AbortWithError message metadata) newId env =
     triggerStreamError streamId ''stream-abort'' message metadata"
| "context_call streamInfo streamId (AbortRunWithError message metadata) newId env =
     triggerRunError (si_runId streamInfo) ''stream-run-abort'' message metadata"

primrec run_handler :: "stream_info \<Rightarrow> uuid \<Rightarrow> handler_run \<Rightarrow> unit promise" where
  "run_handler streamInfo streamId Return = resolve ()"
| "run_handler streamInfo streamId (Throw e) = reject e"
| "run_handler streamInfo streamId (Call c newId env k) =
     (\<lambda>w. case answer (context_call streamInfo streamId c newId env) w of
             (r, w') \<Rightarrow> run_handler streamInfo streamId (k r) w')"

definition context_of :: "stream_info \<Rightarrow> IProcessStreamContext" where
  "context_of streamInfo =
     \<lparr>ctx_onboarding = si_onboarding streamInfo,
      ctx_integration =
        \<lparr>int_id = si_integrationId streamInfo,
         int_identifier = si_integrationIdentifier streamInfo,
         int_platform = si_integrationType streamInfo,
         int_status = si_integrationState streamInfo,
         int_settings = si_integrationSettings streamInfo\<rparr>,
      ctx_stream =
        \<lparr>st_identifier = si_identifier streamInfo,
         st_type = (if si_parentId streamInfo \<noteq> None \<and> si_parentId streamInfo \<noteq> Some [] then CHILD else ROOT),
         st_data = si_data streamInfo\<rparr>\<rparr>"

text \<open>
  \<open>integrationService.processStream(context)\<close>: the handler is started (and noted in
  \<open>invocations\<close>) and runs against the context's operations.
\<close>

definition invoke_handler ::
    "(IProcessStreamContext \<Rightarrow> handler_run) \<Rightarrow> stream_info \<Rightarrow> uuid \<Rightarrow> unit promise" where
  "invoke_handler integrationService streamInfo streamId w =
     run_handler streamInfo streamId (integrationService (context_of streamInfo))
       (w\<lparr>invocations := invocations w @ [streamId]\<rparr>)"

text \<open>
  The \<open>catch\<close> block of \<open>processStream\<close>. \<open>maxStreamRetries\<close> is the value of
  \<open>WORKER_SETTINGS().maxStreamRetries\<close>. Both branches that compute a date log
  \<open>until.toISOString()\<close> before they write it.
\<close>

definition on_handler_error :: "int \<Rightarrow> stream_info \<Rightarrow> uuid \<Rightarrow> thrown \<Rightarrow> unit promise" where
  "on_handler_error maxStreamRetries streamInfo streamId err =
     (case err of
        RateLimitError secs \<Rightarrow>
          await new_Date (\<lambda>now.
            let until = addSeconds now secs in
            await (toISOString until) (\<lambda>logged.
            await (stmt (repo_resetStream streamId)) (\<lambda>u.
            stmt (repo_delayRun (si_runId streamInfo) until))))
      | Error m \<Rightarrow>
          await (triggerStreamError streamId ''stream-process'' ''Error while processing stream!''
                   (Some (JObj [(''error'', json_of_thrown err)]))) (\<lambda>u.
          if si_retries streamInfo + 1 \<le> maxStreamRetries then
            await new_Date (\<lambda>now.
              let until = addSeconds now ((si_retries streamInfo + 1) * 15 * 60) in
              await (toISOString until) (\<lambda>logged.
              stmt (repo_delayStream streamId until)))
          else
            triggerRunError (si_runId streamInfo) ''stream-run-stop''
              ''Stream reached maximum retries!''
              (Some (JObj [(''retries'', JNum (si_retries streamInfo + 1)),
                           (''maxRetries'', JNum maxStreamRetries)]))))"

text \<open>
  Modelled from the spec: the registry \<open>INTEGRATION_SERVICES\<close> and \<open>singleOrDefault\<close>
  are not among the sources; the registry is a table from the platform to its handlers
  (sections 2 and 6), here \<open>services\<close>, and the lookup gives the platform's entry or
  nothing.
\<close>

text \<open>\<open>processStream\<close>.\<close>

definition processStream ::
    "(string \<rightharpoonup> (IProcessStreamContext \<Rightarrow> handler_run)) \<Rightarrow> int \<Rightarrow> uuid \<Rightarrow> unit promise" where
  "processStream services maxStreamRetries streamId w =
     (case getStreamData streamId w of
        None \<Rightarrow> resolve () w
      | Some streamInfo \<Rightarrow>
          if si_runState streamInfo \<noteq> R_PROCESSING then
            triggerStreamError streamId ''check-stream-run-state''
              ''Run is not in processing state!''
              (Some (JObj [(''actualState'', json_of_run_state (si_runState streamInfo))])) w
          else
            (case services (si_integrationType streamInfo) of
               None \<Rightarrow>
                 triggerStreamError streamId ''check-stream-int-service''
                   ''Could not find integration service!''
                   (Some (JObj [(''type'', JStr (si_integrationType streamInfo))])) w
             | Some integrationService \<Rightarrow>
                 await (stmt (repo_markStreamInProgress streamId)) (\<lambda>u.
                   try_catch
                     (await (invoke_handler integrationService streamInfo streamId) (\<lambda>u.
                        stmt (repo_markStreamProcessed streamId)))
                     (on_handler_error maxStreamRetries streamInfo streamId)) w))"


section \<open>SqsQueueReceiver\<close>

record SqsMessage =
  MessageId :: string
  ReceiptHandle :: string
  Body :: string

text \<open>
  Where the loop of \<open>start\<close> stands: at the head of the \<open>while\<close>, waiting for
  \<open>receiveMessage\<close>, waiting for \<open>timeout\<close> (with its milliseconds), left because
  \<open>started\<close> was false, or ended because \<open>receiveMessage\<close> rejected or because
  \<open>JSON.parse\<close> threw (then \<open>start\<close> rejects).
\<close>

datatype loop_pc =
    AtLoopHead
  | AwaitingReceive
  | AwaitingTimeout nat
  | Exited
  | ReceiveFailed
  | ParseFailed

text \<open>
  The promise chain of one message: \<open>processMessage\<close> is pending, or it resolved and
  \<open>deleteMessage\<close> is pending.
\<close>

datatype job_phase = AwaitingProcess | AwaitingDelete

record receiver =
  processingMessages :: int
  started :: bool
  pc :: loop_pc
  jobs :: "(string \<times> job_phase) list"
  process_calls :: "json list"
  delete_calls :: "string list"

text \<open>What the event loop runs next.\<close>

datatype event =
    LoopStep
  | ReceiveResolves "SqsMessage option"
  | ReceiveRejects
  | TimeoutResolves
  | ProcessResolves string
  | ProcessRejects string
  | DeleteResolves string
  | DeleteRejects string
  | StopCalled

definition isAvailable :: "int \<Rightarrow> receiver \<Rightarrow> bool" where
  "isAvailable maxConcurrentMessageProcessing s =
     (processingMessages s < maxConcurrentMessageProcessing)"

definition addJob :: "receiver \<Rightarrow> receiver" where
  "addJob s = s\<lparr>processingMessages := processingMessages s + 1\<rparr>"

definition removeJob :: "receiver \<Rightarrow> receiver" where
  "removeJob s = s\<lparr>processingMessages := processingMessages s - 1\<rparr>"

fun replace1 :: "'a \<Rightarrow> 'a \<Rightarrow> 'a list \<Rightarrow> 'a list" where
  "replace1 x y [] = []"
| "replace1 x y (z # zs) = (if z = x then y # zs else z # replace1 x y zs)"

text \<open>
  Modelled from the spec: \<open>timeout\<close> of the common library and \<open>receiveMessage\<close> and
  \<open>deleteMessage\<close> of the client module are not among the sources. A timeout is a wait
  of the given milliseconds, a receive gives at most one message, and both client calls
  may reject (section 4.1); their settling is an event.
\<close>

text \<open>
  One step of the receiver. \<open>parse\<close> is \<open>JSON.parse\<close> (\<open>None\<close>: it throws). A step that
  cannot happen in the state (a promise that is not pending settles) gives \<open>None\<close>.
\<close>

fun step :: "(string \<Rightarrow> json option) \<Rightarrow> int \<Rightarrow> receiver \<Rightarrow> event \<Rightarrow> receiver option" where
  "step parse maxc s LoopStep =
     (if pc s \<noteq> AtLoopHead then None
      else if \<not> started s then Some (s\<lparr>pc := Exited\<rparr>)
      else if isAvailable maxc s then Some (s\<lparr>pc := AwaitingReceive\<rparr>)
      else Some (s\<lparr>pc := AwaitingTimeout 1000\<rparr>))"
| "step parse maxc s (ReceiveResolves None) =
     (if pc s \<noteq> AwaitingReceive then None else Some (s\<lparr>pc := AtLoopHead\<rparr>))"
| "step parse maxc s (ReceiveResolves (Some message)) =
     (if pc s \<noteq> AwaitingReceive then None
      else case parse (Body message) of
             None \<Rightarrow> Some ((addJob s)\<lparr>pc := ParseFailed\<rparr>)
           | Some body \<Rightarrow>
               Some ((addJob s)\<lparr>pc := AtLoopHead,
                                jobs := jobs s @ [(ReceiptHandle message, AwaitingProcess)],
                                process_calls := process_calls s @ [body]\<rparr>))"
| "step parse maxc s ReceiveRejects =
     (if pc s \<noteq> AwaitingReceive then None else Some (s\<lparr>pc := ReceiveFailed\<rparr>))"
| "step parse maxc s TimeoutResolves =
     (case pc s of AwaitingTimeout ms \<Rightarrow> Some (s\<lparr>pc := AtLoopHead\<rparr>) | _ \<Rightarrow> None)"
| "step parse maxc s (ProcessResolves receipt) =
     (if (receipt, AwaitingProcess) \<notin> set (jobs s) then None
      else Some (s\<lparr>jobs := replace1 (receipt, AwaitingProcess) (receipt, AwaitingDelete) (jobs s),
                    delete_calls := delete_calls s @ [receipt]\<rparr>))"
| "step parse maxc s (ProcessRejects receipt) =
     (if (receipt, AwaitingProcess) \<notin> set (jobs s) then None
      else Some ((removeJob s)\<lparr>jobs := remove1 (receipt, AwaitingProcess) (jobs s)\<rparr>))"
| "step parse maxc s (DeleteResolves receipt) =
     (if (receipt, AwaitingDelete) \<notin> set (jobs s) then None
      else Some ((removeJob s)\<lparr>jobs := remove1 (receipt, AwaitingDelete) (jobs s)\<rparr>))"
| "step parse maxc s (DeleteRejects receipt) =
     (if (receipt, AwaitingDelete) \<notin> set (jobs s) then None
      else Some ((removeJob s)\<lparr>jobs := remove1 (receipt, AwaitingDelete) (jobs s)\<rparr>))"
| "step parse maxc s StopCalled = Some (s\<lparr>started := False\<rparr>)"

fun run :: "(string \<Rightarrow> json option) \<Rightarrow> int \<Rightarrow> receiver \<Rightarrow> event list \<Rightarrow> receiver option" where
  "run parse maxc s [] = Some s"
| "run parse maxc s (e # es) =
     (case step parse maxc s e of None \<Rightarrow> None | Some s' \<Rightarrow> run parse maxc s' es)"

text \<open>The receiver when \<open>start\<close> reaches its loop: \<open>init\<close> is done, \<open>started\<close> is set.\<close>

definition start :: receiver where
  "start = \<lparr>processingMessages = 0, started = True, pc = AtLoopHead, jobs = [],
            process_calls = [], delete_calls = []\<rparr>"

text \<open>What a run of events says about the messages: counted from the events alone.\<close>

fun resolved_receipts :: "event list \<Rightarrow> string list" where
  "resolved_receipts [] = []"
| "resolved_receipts (ProcessResolves receipt # es) = receipt # resolved_receipts es"
| "resolved_receipts (e # es) = resolved_receipts es"

fun receipts :: "event list \<Rightarrow> nat" where
  "receipts [] = 0"
| "receipts (ReceiveResolves (Some message) # es) = Suc (receipts es)"
| "receipts (e # es) = receipts es"

fun completions :: "event list \<Rightarrow> nat" where
  "completions [] = 0"
| "completions (ProcessRejects receipt # es) = Suc (completions es)"
| "completions (DeleteResolves receipt # es) = Suc (completions es)"
| "completions (DeleteRejects receipt # es) = Suc (completions es)"
| "completions (e # es) = completions es"


section \<open>SqsQueueSender\<close>

record SendMessageRequest =
  QueueUrl :: string
  MessageGroupId :: string
  MessageDeduplicationId :: "string option"
  MessageBody :: string

definition getQueueUrl :: "string option \<Rightarrow> thrown + string" where
  "getQueueUrl queueUrl =
     (case queueUrl of
        None \<Rightarrow> Inl (Error ''Queue URL not set - please call init() first!'')
      | Some url \<Rightarrow> if url \<noteq> [] then Inr url
                    else Inl (Error ''Queue URL not set - please call init() first!''))"

text \<open>A number in a template literal: its decimal digits, after a minus sign when negative.\<close>

definition digit :: "nat \<Rightarrow> char" where
  "digit d = ''0123456789'' ! d"

fun decimal :: "nat \<Rightarrow> string" where
  "decimal n = (if n < 10 then [digit n] else decimal (n div 10) @ [digit (n mod 10)])"

declare decimal.simps [simp del]

definition number_to_string :: "int \<Rightarrow> string" where
  "number_to_string i = (if i < 0 then CHR ''-'' # decimal (nat (- i)) else decimal (nat i))"

text \<open>
  \<open>sendMessage\<close>: the request handed to the SQS client. \<open>getTime\<close> is what
  \<open>new Date().getTime()\<close> returns at the call, \<open>body\<close> is \<open>JSON.stringify(message)\<close>.
\<close>

definition sendMessage :: "bool \<Rightarrow> string option \<Rightarrow> int \<Rightarrow> string \<Rightarrow> string \<Rightarrow> thrown + SendMessageRequest" where
  "sendMessage isFifo queueUrl getTime groupId body =
     (case getQueueUrl queueUrl of
        Inl e \<Rightarrow> Inl e
      | Inr url \<Rightarrow>
          Inr \<lparr>QueueUrl = url,
               MessageGroupId = groupId,
               MessageDeduplicationId =
                 (if isFifo then Some (groupId @ ''-'' @ number_to_string getTime) else None),
               MessageBody = body\<rparr>)"


section \<open>Notions used to state the properties\<close>

text \<open>The receipt handles of the messages received in a run of events.\<close>

fun received_handles :: "event list \<Rightarrow> string list" where
  "received_handles [] = []"
| "received_handles (ReceiveResolves (Some message) # es) = ReceiptHandle message # received_handles es"
| "received_handles (e # es) = received_handles es"

definition handles :: "receiver \<Rightarrow> string set" where
  "handles s = fst ` set (jobs s)"

text \<open>
  The invariant of the receiver: the counter counts the promise chains in flight (and
  the message whose body failed to parse, if the loop ended so), it stays within the
  maximum, a receive is awaited only with a free slot, and a wait lasts one second.
\<close>

definition receiver_inv :: "int \<Rightarrow> receiver \<Rightarrow> bool" where
  "receiver_inv maxc s \<longleftrightarrow>
     processingMessages s = int (length (jobs s)) + (if pc s = ParseFailed then 1 else 0)
     \<and> processingMessages s \<le> maxc
     \<and> (pc s = AwaitingReceive \<longrightarrow> processingMessages s < maxc)
     \<and> (\<forall>ms. pc s = AwaitingTimeout ms \<longrightarrow> ms = 1000)"

text \<open>Reading a decimal numeral back.\<close>

definition digit_value :: "char \<Rightarrow> nat" where
  "digit_value c = of_char c - 48"

definition decimal_value :: "string \<Rightarrow> nat" where
  "decimal_value cs = foldl (\<lambda>a c. 10 * a + digit_value c) 0 cs"

text \<open>The location recorded in an error column.\<close>

fun location_of :: "json option \<Rightarrow> string option" where
  "location_of (Some (JObj kvs)) =
     (case map_of kvs ''location'' of Some (JStr l) \<Rightarrow> Some l | _ \<Rightarrow> None)"
| "location_of _ = None"

text \<open>
  What a handler execution leaves alone, whatever it calls: the clock, the existence
  of every run, and the existence and run of every stream, whose retries do not
  decrease.
\<close>

definition steady :: "world \<Rightarrow> world \<Rightarrow> bool" where
  "steady w w' \<longleftrightarrow>
     clock w' = clock w
     \<and> (\<forall>k. runs w k \<noteq> None \<longrightarrow> runs w' k \<noteq> None)
     \<and> (\<forall>k row. streams w k = Some row \<longrightarrow>
           (\<exists>row'. streams w' k = Some row' \<and> s_retries row \<le> s_retries row'
                    \<and> s_runId row' = s_runId row))"

definition keeps_steady :: "'a promise \<Rightarrow> bool" where
  "keeps_steady p \<longleftrightarrow> (\<forall>w. steady w (snd (p w)))"

text \<open>Concrete inputs on which the theorems are instantiated.\<close>

definition demo_run_row :: run_row where
  "demo_run_row =
     \<lparr>r_tenantId = ''tenant-1'', r_integrationId = ''int-1'', r_microserviceId = None,
      r_onboarding = False, r_state = R_PROCESSING, r_delayedUntil = None,
      r_processedAt = None, r_error = None, r_updatedAt = 1700000000000\<rparr>"

definition demo_stream_row :: stream_row where
  "demo_stream_row =
     \<lparr>s_runId = ''run-1'', s_parentId = None, s_state = S_PENDING, s_identifier = ''posts'',
      s_type = Some ROOT, s_data = None, s_tenantId = ''tenant-1'', s_integrationId = ''int-1'',
      s_microserviceId = None, s_delayedUntil = None, s_retries = 1, s_error = None,
      s_processedAt = None, s_updatedAt = 1700000000000\<rparr>"

definition demo_integration_row :: integration_row where
  "demo_integration_row =
     \<lparr>i_platform = ''linkedin'', i_identifier = None, i_status = ''in-progress'',
      i_settings = Some (JObj [(''posts'', JArr []), (''lastSync'', JNull)]),
      i_deleted = False, i_updatedAt = 1700000000000\<rparr>"

definition demo_info :: stream_info where
  "demo_info =
     \<lparr>si_onboarding = False, si_integrationId = ''int-1'', si_integrationType = ''linkedin'',
      si_integrationState = ''in-progress'', si_integrationIdentifier = None,
      si_integrationSettings = Some (JObj [(''posts'', JArr []), (''lastSync'', JNull)]),
      si_runState = R_PROCESSING, si_runId = ''run-1'', si_tenantId = ''tenant-1'',
      si_identifier = ''posts'', si_parentId = None, si_data = None, si_retries = 1\<rparr>"

definition demo_world :: world where
  "demo_world =
     \<lparr>runs = [''run-1'' \<mapsto> demo_run_row],
      streams = [''stream-1'' \<mapsto> demo_stream_row],
      integrations = [''int-1'' \<mapsto> demo_integration_row],
      data_rows = Map.empty,
      stream_queue = [],
      data_queue = [],
      clock = 1700000000000,
      invocations = []\<rparr>"

definition demo_parse :: "string \<Rightarrow> json option" where
  "demo_parse b = (if b = ''{}'' then Some (JObj []) else None)"

definition demo_message :: "string \<Rightarrow> SqsMessage" where
  "demo_message h = \<lparr>MessageId = ''m-'' @ h, ReceiptHandle = h, Body = ''{}''\<rparr>"

definition demo_events :: "event list" where
  "demo_events =
     [LoopStep, ReceiveResolves (Some (demo_message ''h1'')),
      LoopStep, TimeoutResolves, ProcessResolves ''h1'', DeleteRejects ''h1'',
      LoopStep, ReceiveResolves (Some (demo_message ''h2'')), ProcessRejects ''h2'',
      LoopStep, ReceiveResolves (Some (demo_message ''h3''))]"

definition demo_stream :: IIntegrationStream where
  "demo_stream = \<lparr>st_identifier = ''posts'', st_type = ROOT, st_data = None\<rparr>"

definition demo_once :: world where
  "demo_once = snd (projr (publishStream ''id-1'' ''run-1'' demo_stream demo_world))"

definition demo_twice :: world where
  "demo_twice = snd (projr (publishStream ''id-2'' ''run-1'' demo_stream demo_once))"

definition demo_rate_limited_handler :: "IProcessStreamContext \<Rightarrow> handler_run" where
  "demo_rate_limited_handler ctx = Throw (RateLimitError 0)"

definition demo_failing_handler :: "IProcessStreamContext \<Rightarrow> handler_run" where
  "demo_failing_handler ctx = Throw (Error ''timeout'')"


definition demo_in_progress :: world where
  "demo_in_progress =
     demo_world\<lparr>streams := (streams demo_world)(''stream-1'' \<mapsto>
       demo_stream_row\<lparr>s_state := S_PROCESSING, s_updatedAt := clock demo_world\<rparr>)\<rparr>"

definition demo_invoked :: world where
  "demo_invoked = demo_in_progress\<lparr>invocations := invocations demo_in_progress @ [''stream-1'']\<rparr>"

definition demo_delayed_world :: world where
  "demo_delayed_world = demo_world\<lparr>runs := [''run-1'' \<mapsto> demo_run_row\<lparr>r_state := R_DELAYED\<rparr>]\<rparr>"


section \<open>The repositories\<close>

lemma map_of_filter_in: "k \<in> S \<Longrightarrow> map_of (filter (\<lambda>kv. fst kv \<notin> S) old) k = None"
  by (induction old) auto

lemma map_of_filter_out: "k \<notin> S \<Longrightarrow> map_of (filter (\<lambda>kv. fst kv \<notin> S) old) k = map_of old k"
  by (induction old) auto

lemma obj_merge_lookup:
  "map_of (obj_merge old new) k = (case map_of new k of Some v \<Rightarrow> Some v | None \<Rightarrow> map_of old k)"
proof (cases "map_of new k")
  case None
  then have "k \<notin> fst ` set new" by (simp add: map_of_eq_None_iff)
  then have "map_of (filter (\<lambda>kv. fst kv \<notin> fst ` set new) old) k = map_of old k"
    by (rule map_of_filter_out)
  with None show ?thesis by (simp add: obj_merge_def map_add_def split: option.splits)
next
  case (Some v)
  then have "k \<in> fst ` set new" by (metis map_of_eq_None_iff option.distinct(1))
  then have "map_of (filter (\<lambda>kv. fst kv \<notin> fst ` set new) old) k = None"
    by (rule map_of_filter_in)
  with Some show ?thesis by (simp add: obj_merge_def map_add_def)
qed

lemma update_stream_Some:
  "streams w sid = Some row \<Longrightarrow> update_stream sid f w = Inr (w\<lparr>streams := (streams w)(sid \<mapsto> f row)\<rparr>)"
  by (simp add: update_stream_def update_where_id_def checkUpdateRowCount_def)

lemma update_stream_None:
  "streams w sid = None \<Longrightarrow> \<exists>e. update_stream sid f w = Inl e"
  by (simp add: update_stream_def update_where_id_def checkUpdateRowCount_def)

lemma update_run_Some:
  "runs w rid = Some row \<Longrightarrow> update_run rid f w = Inr (w\<lparr>runs := (runs w)(rid \<mapsto> f row)\<rparr>)"
  by (simp add: update_run_def update_where_id_def checkUpdateRowCount_def)

lemma update_run_None:
  "runs w rid = None \<Longrightarrow> \<exists>e. update_run rid f w = Inl e"
  by (simp add: update_run_def update_where_id_def checkUpdateRowCount_def)

lemma markRunError_update_run:
  "markRunError runId error w =
     update_run runId (\<lambda>r. r\<lparr>r_state := R_ERROR, r_processedAt := Some (clock w),
                   r_error := Some error, r_updatedAt := clock w\<rparr>) w"
  by (simp add: markRunError_def update_run_def)

lemmas promise_defs =
  resolve_def reject_def await_def try_catch_def stmt_def new_Date_def answer_def

lemma merge_single:
  "map_of (obj_merge old [(k, v)]) k' = (if k' = k then Some v else map_of old k')"
  by (simp add: obj_merge_lookup)

lemma run_updateIntegrationSettings_ok:
  assumes "runs w runId = Some r" and "integrations w (r_integrationId r) = Some i"
  shows "updateIntegrationSettings runId settings w =
           Inr (w\<lparr>integrations := (integrations w)(r_integrationId r \<mapsto>
                  i\<lparr>i_settings := sql_jsonb_concat (i_settings i) (Some settings),
                    i_updatedAt := clock w\<rparr>)\<rparr>)"
  using assms
  by (simp add: updateIntegrationSettings_def update_where_id_def checkUpdateRowCount_def)

lemma repo_updateIntegrationSettings_ok:
  assumes "streams w streamId = Some s" and "integrations w (s_integrationId s) = Some i"
  shows "repo_updateIntegrationSettings streamId settings w =
           Inr (w\<lparr>integrations := (integrations w)(s_integrationId s \<mapsto>
                  i\<lparr>i_settings := sql_jsonb_concat (i_settings i) (Some settings),
                    i_updatedAt := clock w\<rparr>)\<rparr>)"
  using assms
  by (simp add: repo_updateIntegrationSettings_def update_where_id_def checkUpdateRowCount_def)

text \<open>
  Claim C10. For an existing run id, \<open>markRunError\<close> succeeds and sets the run's state
  to ERROR, stores the given error and sets \<open>processedAt\<close> (and \<open>updatedAt\<close>) to the
  current time, leaving the run's other columns and every other row as they were; when
  no run row has the id, it fails.
\<close>

theorem markRunError_sets_error:
  "(\<forall>r. runs w runId = Some r \<longrightarrow>
      (\<exists>w' r'. markRunError runId error w = Inr w' \<and> runs w' runId = Some r'
         \<and> r_state r' = R_ERROR \<and> r_error r' = Some error
         \<and> r_processedAt r' = Some (clock w) \<and> r_updatedAt r' = clock w
         \<and> r_tenantId r' = r_tenantId r \<and> r_integrationId r' = r_integrationId r
         \<and> r_onboarding r' = r_onboarding r \<and> r_delayedUntil r' = r_delayedUntil r
         \<and> (\<forall>k. k \<noteq> runId \<longrightarrow> runs w' k = runs w k)
         \<and> streams w' = streams w \<and> integrations w' = integrations w
         \<and> data_rows w' = data_rows w))
   \<and> (runs w runId = None \<longrightarrow> (\<exists>e. markRunError runId error w = Inl e))"
  by (auto simp: markRunError_update_run update_run_Some dest: update_run_None)

theorem markRunError_sets_error_witness:
  "runs demo_world ''run-1'' = Some demo_run_row
   \<and> \<not> isl (markRunError ''run-1'' (JStr ''boom'') demo_world)
   \<and> map_option r_state (runs (projr (markRunError ''run-1'' (JStr ''boom'') demo_world)) ''run-1'') = Some R_ERROR
   \<and> map_option r_processedAt (runs (projr (markRunError ''run-1'' (JStr ''boom'') demo_world)) ''run-1'') = Some (Some 1700000000000)
   \<and> runs demo_world ''run-2'' = None
   \<and> isl (markRunError ''run-2'' (JStr ''boom'') demo_world)"
proof -
  have a: "runs demo_world ''run-1'' = Some demo_run_row" by (simp add: demo_world_def)
  have b: "runs demo_world ''run-2'' = None" by (simp add: demo_world_def)
  have c: "clock demo_world = 1700000000000" by (simp add: demo_world_def)
  from markRunError_sets_error[of demo_world "''run-1''" "JStr ''boom''"] a c
  have 1: "\<not> isl (markRunError ''run-1'' (JStr ''boom'') demo_world)
     \<and> map_option r_state (runs (projr (markRunError ''run-1'' (JStr ''boom'') demo_world)) ''run-1'') = Some R_ERROR
     \<and> map_option r_processedAt (runs (projr (markRunError ''run-1'' (JStr ''boom'') demo_world)) ''run-1'') = Some (Some 1700000000000)"
    by auto
  from markRunError_sets_error[of demo_world "''run-2''" "JStr ''boom''"] b
  have 2: "isl (markRunError ''run-2'' (JStr ''boom'') demo_world)" by auto
  from a b 1 2 show ?thesis by simp
qed

lemma merged_settings:
  assumes "i_settings i = Some (JObj old)"
  shows "\<exists>merged. i_settings (i\<lparr>i_settings := sql_jsonb_concat (i_settings i) (Some (JObj [(k, v)])),
                                 i_updatedAt := t\<rparr>) = Some (JObj merged)
           \<and> map_of merged k = Some v
           \<and> (\<forall>k'. k' \<noteq> k \<longrightarrow> map_of merged k' = map_of old k')"
  using assms by (simp add: sql_jsonb_concat_def merge_single)

lemma svc_updateIntegrationSettings_ok:
  assumes "streams w streamId = Some s" and "integrations w (s_integrationId s) = Some i"
  shows "svc_updateIntegrationSettings streamId settings w =
           (Inr (), w\<lparr>integrations := (integrations w)(s_integrationId s \<mapsto>
                  i\<lparr>i_settings := sql_jsonb_concat (i_settings i) (Some settings),
                    i_updatedAt := clock w\<rparr>)\<rparr>)"
  by (simp add: svc_updateIntegrationSettings_def try_catch_def stmt_def
        repo_updateIntegrationSettings_ok[OF assms])

lemma run_merge:
  assumes "integrations w iid = Some i" and "i_settings i = Some (JObj old)"
    and "runs w runId = Some r" and "r_integrationId r = iid"
  shows "\<exists>w' i' merged.
               updateIntegrationSettings runId (JObj [(k, v)]) w = Inr w'
               \<and> integrations w' iid = Some i' \<and> i_settings i' = Some (JObj merged)
               \<and> map_of merged k = Some v
               \<and> (\<forall>k'. k' \<noteq> k \<longrightarrow> map_of merged k' = map_of old k')
               \<and> (\<forall>j. j \<noteq> iid \<longrightarrow> integrations w' j = integrations w j)"
proof -
  let ?i' = "i\<lparr>i_settings := sql_jsonb_concat (i_settings i) (Some (JObj [(k, v)])),
               i_updatedAt := clock w\<rparr>"
  let ?w' = "w\<lparr>integrations := (integrations w)(iid \<mapsto> ?i')\<rparr>"
  have i: "integrations w (r_integrationId r) = Some i" using assms(1,4) by simp
  have u: "updateIntegrationSettings runId (JObj [(k, v)]) w = Inr ?w'"
    unfolding run_updateIntegrationSettings_ok[OF assms(3) i] assms(4) ..
  have l: "integrations ?w' iid = Some ?i'" by simp
  have o: "\<forall>j. j \<noteq> iid \<longrightarrow> integrations ?w' j = integrations w j" by simp
  from merged_settings[OF assms(2), where k=k and v=v and t="clock w"]
  obtain merged where m: "i_settings ?i' = Some (JObj merged) \<and> map_of merged k = Some v
    \<and> (\<forall>k'. k' \<noteq> k \<longrightarrow> map_of merged k' = map_of old k')" ..
  from u l m o have "updateIntegrationSettings runId (JObj [(k, v)]) w = Inr ?w'
               \<and> integrations ?w' iid = Some ?i' \<and> i_settings ?i' = Some (JObj merged)
               \<and> map_of merged k = Some v
               \<and> (\<forall>k'. k' \<noteq> k \<longrightarrow> map_of merged k' = map_of old k')
               \<and> (\<forall>j. j \<noteq> iid \<longrightarrow> integrations ?w' j = integrations w j)"
    by simp
  then show ?thesis by (intro exI)
qed


lemma svc_merge:
  assumes "integrations w iid = Some i" and "i_settings i = Some (JObj old)"
    and "streams w streamId = Some s" and "s_integrationId s = iid"
  shows "\<exists>w' i' merged.
               context_call streamInfo streamId (UpdateIntegrationSettings (JObj [(k, v)])) newId env w
                 = (Inr (), w')
               \<and> integrations w' iid = Some i' \<and> i_settings i' = Some (JObj merged)
               \<and> map_of merged k = Some v
               \<and> (\<forall>k'. k' \<noteq> k \<longrightarrow> map_of merged k' = map_of old k')
               \<and> (\<forall>j. j \<noteq> iid \<longrightarrow> integrations w' j = integrations w j)"
proof -
  let ?i' = "i\<lparr>i_settings := sql_jsonb_concat (i_settings i) (Some (JObj [(k, v)])),
               i_updatedAt := clock w\<rparr>"
  let ?w' = "w\<lparr>integrations := (integrations w)(iid \<mapsto> ?i')\<rparr>"
  have i: "integrations w (s_integrationId s) = Some i" using assms(1,4) by simp
  have "svc_updateIntegrationSettings streamId (JObj [(k, v)]) w = (Inr (), ?w')"
    unfolding svc_updateIntegrationSettings_ok[OF assms(3) i] assms(4) ..
  then have u: "context_call streamInfo streamId (UpdateIntegrationSettings (JObj [(k, v)])) newId env w
                 = (Inr (), ?w')"
    by simp
  have l: "integrations ?w' iid = Some ?i'" by simp
  have o: "\<forall>j. j \<noteq> iid \<longrightarrow> integrations ?w' j = integrations w j" by simp
  from merged_settings[OF assms(2), where k=k and v=v and t="clock w"]
  obtain merged where m: "i_settings ?i' = Some (JObj merged) \<and> map_of merged k = Some v
    \<and> (\<forall>k'. k' \<noteq> k \<longrightarrow> map_of merged k' = map_of old k')" ..
  from u l m o have "context_call streamInfo streamId (UpdateIntegrationSettings (JObj [(k, v)])) newId env w
                 = (Inr (), ?w')
               \<and> integrations ?w' iid = Some ?i' \<and> i_settings ?i' = Some (JObj merged)
               \<and> map_of merged k = Some v
               \<and> (\<forall>k'. k' \<noteq> k \<longrightarrow> map_of merged k' = map_of old k')
               \<and> (\<forall>j. j \<noteq> iid \<longrightarrow> integrations ?w' j = integrations w j)"
    by simp
  then show ?thesis by (intro exI)
qed

lemma demo_settings_update:
  "context_call demo_info ''stream-1''
     (UpdateIntegrationSettings (JObj [(''lastSync'', JStr ''2024-01-01'')])) ''id-9'' InfraOk
     demo_world
   = (Inr (), demo_world\<lparr>integrations := [''int-1'' \<mapsto>
        demo_integration_row\<lparr>i_settings :=
            Some (JObj [(''posts'', JArr []), (''lastSync'', JStr ''2024-01-01'')]),
          i_updatedAt := 1700000000000\<rparr>]\<rparr>)"
proof -
  have s: "streams demo_world ''stream-1'' = Some demo_stream_row"
    by (simp add: demo_world_def)
  have i: "integrations demo_world (s_integrationId demo_stream_row) = Some demo_integration_row"
    by (simp add: demo_world_def demo_stream_row_def)
  have m: "sql_jsonb_concat (i_settings demo_integration_row)
             (Some (JObj [(''lastSync'', JStr ''2024-01-01'')]))
           = Some (JObj [(''posts'', JArr []), (''lastSync'', JStr ''2024-01-01'')])"
    by (simp add: demo_integration_row_def sql_jsonb_concat_def obj_merge_def)
  have k: "s_integrationId demo_stream_row = ''int-1''" by (simp add: demo_stream_row_def)
  have c: "clock demo_world = 1700000000000" by (simp add: demo_world_def)
  have e: "(integrations demo_world)(''int-1'' \<mapsto> x) = [''int-1'' \<mapsto> x]" for x
    by (simp add: demo_world_def)
  show ?thesis
    by (simp add: svc_updateIntegrationSettings_ok[OF s i] m k c e)
qed

text \<open>
  Claim C5. When the integration's settings are an object, \<open>updateIntegrationSettings\<close>
  with the partial object \<open>{k: v}\<close>, by the run worker's repository and from a stream's
  handler context alike, stores on the owning integration an object in which \<open>k\<close> maps
  to \<open>v\<close> and every other top-level key has its previous value; other integrations
  are untouched.
\<close>

theorem updateIntegrationSettings_shallow_merge:
  assumes "integrations w iid = Some i" and "i_settings i = Some (JObj old)"
  shows "(\<forall>r. runs w runId = Some r \<and> r_integrationId r = iid \<longrightarrow>
            (\<exists>w' i' merged.
               updateIntegrationSettings runId (JObj [(k, v)]) w = Inr w'
               \<and> integrations w' iid = Some i' \<and> i_settings i' = Some (JObj merged)
               \<and> map_of merged k = Some v
               \<and> (\<forall>k'. k' \<noteq> k \<longrightarrow> map_of merged k' = map_of old k')
               \<and> (\<forall>j. j \<noteq> iid \<longrightarrow> integrations w' j = integrations w j)))
       \<and> (\<forall>s. streams w streamId = Some s \<and> s_integrationId s = iid \<longrightarrow>
            (\<exists>w' i' merged.
               context_call streamInfo streamId (UpdateIntegrationSettings (JObj [(k, v)])) newId env w
                 = (Inr (), w')
               \<and> integrations w' iid = Some i' \<and> i_settings i' = Some (JObj merged)
               \<and> map_of merged k = Some v
               \<and> (\<forall>k'. k' \<noteq> k \<longrightarrow> map_of merged k' = map_of old k')
               \<and> (\<forall>j. j \<noteq> iid \<longrightarrow> integrations w' j = integrations w j)))"
proof (intro conjI allI impI)
  fix r
  assume "runs w runId = Some r \<and> r_integrationId r = iid"
  then have "runs w runId = Some r" and "r_integrationId r = iid" by simp_all
  then show "\<exists>w' i' merged.
               updateIntegrationSettings runId (JObj [(k, v)]) w = Inr w'
               \<and> integrations w' iid = Some i' \<and> i_settings i' = Some (JObj merged)
               \<and> map_of merged k = Some v
               \<and> (\<forall>k'. k' \<noteq> k \<longrightarrow> map_of merged k' = map_of old k')
               \<and> (\<forall>j. j \<noteq> iid \<longrightarrow> integrations w' j = integrations w j)"
    by (rule run_merge[OF assms])
next
  fix s
  assume "streams w streamId = Some s \<and> s_integrationId s = iid"
  then have "streams w streamId = Some s" and "s_integrationId s = iid" by simp_all
  then show "\<exists>w' i' merged.
               context_call streamInfo streamId (UpdateIntegrationSettings (JObj [(k, v)])) newId env w
                 = (Inr (), w')
               \<and> integrations w' iid = Some i' \<and> i_settings i' = Some (JObj merged)
               \<and> map_of merged k = Some v
               \<and> (\<forall>k'. k' \<noteq> k \<longrightarrow> map_of merged k' = map_of old k')
               \<and> (\<forall>j. j \<noteq> iid \<longrightarrow> integrations w' j = integrations w j)"
    by (rule svc_merge[OF assms])
qed

theorem updateIntegrationSettings_shallow_merge_witness:
  "integrations demo_world ''int-1'' = Some demo_integration_row
   \<and> i_settings demo_integration_row = Some (JObj [(''posts'', JArr []), (''lastSync'', JNull)])
   \<and> streams demo_world ''stream-1'' = Some demo_stream_row
   \<and> s_integrationId demo_stream_row = ''int-1''
   \<and> map_option i_settings (integrations
        (snd (context_call demo_info ''stream-1''
               (UpdateIntegrationSettings (JObj [(''lastSync'', JStr ''2024-01-01'')])) ''id-9'' InfraOk
               demo_world)) ''int-1'')
      = Some (Some (JObj [(''posts'', JArr []), (''lastSync'', JStr ''2024-01-01'')]))"
proof -
  have a: "integrations demo_world ''int-1'' = Some demo_integration_row"
    by (simp add: demo_world_def)
  have b: "i_settings demo_integration_row = Some (JObj [(''posts'', JArr []), (''lastSync'', JNull)])"
    by (simp add: demo_integration_row_def)
  have c: "streams demo_world ''stream-1'' = Some demo_stream_row \<and> s_integrationId demo_stream_row = ''int-1''"
    by (simp add: demo_world_def demo_stream_row_def)
  note t = updateIntegrationSettings_shallow_merge[OF a b, of "''run-1''" "''lastSync''"
      "JStr ''2024-01-01''" "''stream-1''" demo_info "''id-9''" InfraOk]
  from t[THEN conjunct2, rule_format, OF c]
  obtain w' where "context_call demo_info ''stream-1''
               (UpdateIntegrationSettings (JObj [(''lastSync'', JStr ''2024-01-01'')])) ''id-9'' InfraOk
               demo_world = (Inr (), w')"
    by (elim exE conjE)
  moreover have "map_option i_settings (integrations
        (snd (context_call demo_info ''stream-1''
               (UpdateIntegrationSettings (JObj [(''lastSync'', JStr ''2024-01-01'')])) ''id-9'' InfraOk
               demo_world)) ''int-1'')
      = Some (Some (JObj [(''posts'', JArr []), (''lastSync'', JStr ''2024-01-01'')]))"
    unfolding demo_settings_update by simp
  ultimately show ?thesis using a b c by simp
qed

lemma publishStream_ok:
  assumes "runs w runId = Some r" and "streams w newId = None"
  shows "\<exists>row. publishStream newId runId stream w
                 = Inr (newId, w\<lparr>streams := (streams w)(newId \<mapsto> row)\<rparr>)
           \<and> s_runId row = runId \<and> s_identifier row = st_identifier stream
           \<and> s_state row = S_PENDING \<and> s_parentId row = None \<and> s_retries row = 0"
proof -
  let ?row = "\<lparr>s_runId = runId, s_parentId = None, s_state = S_PENDING,
                s_identifier = st_identifier stream, s_type = Some (st_type stream),
                s_data = (case st_data stream of None \<Rightarrow> None
                          | Some d \<Rightarrow> if truthy d then Some d else None),
                s_tenantId = r_tenantId r, s_integrationId = r_integrationId r,
                s_microserviceId = r_microserviceId r, s_delayedUntil = None,
                s_retries = 0, s_error = None, s_processedAt = None,
                s_updatedAt = clock w\<rparr>"
  have "publishStream newId runId stream w
          = Inr (newId, w\<lparr>streams := (streams w)(newId \<mapsto> ?row)\<rparr>)"
    using assms by (simp add: publishStream_def checkUpdateRowCount_def)
  then have "publishStream newId runId stream w
                 = Inr (newId, w\<lparr>streams := (streams w)(newId \<mapsto> ?row)\<rparr>)
           \<and> s_runId ?row = runId \<and> s_identifier ?row = st_identifier stream
           \<and> s_state ?row = S_PENDING \<and> s_parentId ?row = None \<and> s_retries ?row = 0"
    by simp
  then show ?thesis by (intro exI)
qed

lemma publishStream_no_run:
  "runs w runId = None \<Longrightarrow> \<exists>e. publishStream newId runId stream w = Inl e"
  by (simp add: publishStream_def checkUpdateRowCount_def)

text \<open>
  Claim C4, as stated, fails: a second \<open>publishStream\<close> with the same run and identifier
  succeeds and leaves two stream rows with that identifier under the run.
\<close>

theorem second_publish_inserts_second_row:
  "publishStream ''id-1'' ''run-1'' demo_stream demo_world = Inr (''id-1'', demo_once)
   \<and> publishStream ''id-2'' ''run-1'' demo_stream demo_once = Inr (''id-2'', demo_twice)
   \<and> map_option s_runId (streams demo_twice ''id-1'') = Some ''run-1''
   \<and> map_option s_identifier (streams demo_twice ''id-1'') = Some ''posts''
   \<and> map_option s_runId (streams demo_twice ''id-2'') = Some ''run-1''
   \<and> map_option s_identifier (streams demo_twice ''id-2'') = Some ''posts''"
proof -
  have r: "runs demo_world ''run-1'' = Some demo_run_row" by (simp add: demo_world_def)
  have f1: "streams demo_world ''id-1'' = None" by (simp add: demo_world_def)
  from publishStream_ok[OF r f1, of demo_stream]
  obtain row1 where p1: "publishStream ''id-1'' ''run-1'' demo_stream demo_world
      = Inr (''id-1'', demo_world\<lparr>streams := (streams demo_world)(''id-1'' \<mapsto> row1)\<rparr>)"
    and k1: "s_runId row1 = ''run-1''" "s_identifier row1 = st_identifier demo_stream"
    by (elim exE conjE)
  from p1 have o: "demo_once = demo_world\<lparr>streams := (streams demo_world)(''id-1'' \<mapsto> row1)\<rparr>"
    by (simp add: demo_once_def)
  have r2: "runs demo_once ''run-1'' = Some demo_run_row" by (simp add: o demo_world_def)
  have f2: "streams demo_once ''id-2'' = None" by (simp add: o demo_world_def)
  from publishStream_ok[OF r2 f2, of demo_stream]
  obtain row2 where p2: "publishStream ''id-2'' ''run-1'' demo_stream demo_once
      = Inr (''id-2'', demo_once\<lparr>streams := (streams demo_once)(''id-2'' \<mapsto> row2)\<rparr>)"
    and k2: "s_runId row2 = ''run-1''" "s_identifier row2 = st_identifier demo_stream"
    by (elim exE conjE)
  from p2 have t: "demo_twice = demo_once\<lparr>streams := (streams demo_once)(''id-2'' \<mapsto> row2)\<rparr>"
    by (simp add: demo_twice_def)
  have i: "st_identifier demo_stream = ''posts''" by (simp add: demo_stream_def)
  have s1: "streams demo_twice ''id-1'' = Some row1" by (simp add: t o)
  have s2: "streams demo_twice ''id-2'' = Some row2" by (simp add: t)
  from p1 p2 show ?thesis
    unfolding o[symmetric] t[symmetric] by (simp add: s1 s2 k1 k2 i)
qed

text \<open>
  Claim C4, amended. \<open>publishStream\<close> makes no lookup by run and identifier: for an
  existing run, each call with a freshly generated id inserts one new PENDING row, so
  after two calls with the same run and identifier the run has two rows with that
  identifier, and every row that was there is unchanged.
\<close>

theorem publishStream_inserts_every_time:
  assumes "runs w runId = Some r" and "streams w id1 = None" and "streams w id2 = None"
    and "id1 \<noteq> id2"
  shows "\<exists>w1 w2 row1 row2.
           publishStream id1 runId stream w = Inr (id1, w1)
           \<and> publishStream id2 runId stream w1 = Inr (id2, w2)
           \<and> streams w2 id1 = Some row1 \<and> streams w2 id2 = Some row2
           \<and> s_runId row1 = runId \<and> s_identifier row1 = st_identifier stream
           \<and> s_state row1 = S_PENDING
           \<and> s_runId row2 = runId \<and> s_identifier row2 = st_identifier stream
           \<and> s_state row2 = S_PENDING
           \<and> (\<forall>k. k \<noteq> id1 \<and> k \<noteq> id2 \<longrightarrow> streams w2 k = streams w k)"
proof -
  from publishStream_ok[OF assms(1,2), of stream]
  obtain row1 where p1: "publishStream id1 runId stream w
      = Inr (id1, w\<lparr>streams := (streams w)(id1 \<mapsto> row1)\<rparr>)"
    and k1: "s_runId row1 = runId" "s_identifier row1 = st_identifier stream"
      "s_state row1 = S_PENDING"
    by (elim exE conjE)
  let ?w1 = "w\<lparr>streams := (streams w)(id1 \<mapsto> row1)\<rparr>"
  have r2: "runs ?w1 runId = Some r" using assms(1) by simp
  have f2: "streams ?w1 id2 = None" using assms(3,4) by simp
  from publishStream_ok[OF r2 f2, of stream]
  obtain row2 where p2: "publishStream id2 runId stream ?w1
      = Inr (id2, ?w1\<lparr>streams := (streams ?w1)(id2 \<mapsto> row2)\<rparr>)"
    and k2: "s_runId row2 = runId" "s_identifier row2 = st_identifier stream"
      "s_state row2 = S_PENDING"
    by (elim exE conjE)
  let ?w2 = "?w1\<lparr>streams := (streams ?w1)(id2 \<mapsto> row2)\<rparr>"
  have s1: "streams ?w2 id1 = Some row1" using assms(4) by simp
  have s2: "streams ?w2 id2 = Some row2" by simp
  have o: "\<forall>k. k \<noteq> id1 \<and> k \<noteq> id2 \<longrightarrow> streams ?w2 k = streams w k" by simp
  from p1 p2 s1 s2 k1 k2 o
  have "publishStream id1 runId stream w = Inr (id1, ?w1)
           \<and> publishStream id2 runId stream ?w1 = Inr (id2, ?w2)
           \<and> streams ?w2 id1 = Some row1 \<and> streams ?w2 id2 = Some row2
           \<and> s_runId row1 = runId \<and> s_identifier row1 = st_identifier stream
           \<and> s_state row1 = S_PENDING
           \<and> s_runId row2 = runId \<and> s_identifier row2 = st_identifier stream
           \<and> s_state row2 = S_PENDING
           \<and> (\<forall>k. k \<noteq> id1 \<and> k \<noteq> id2 \<longrightarrow> streams ?w2 k = streams w k)"
    by simp
  then show ?thesis by (intro exI)
qed

theorem publishStream_inserts_every_time_witness:
  "runs demo_world ''run-1'' = Some demo_run_row
   \<and> streams demo_world ''id-1'' = None \<and> streams demo_world ''id-2'' = None
   \<and> ''id-1'' \<noteq> ''id-2''
   \<and> (\<exists>w1 w2 row1 row2.
           publishStream ''id-1'' ''run-1'' demo_stream demo_world = Inr (''id-1'', w1)
           \<and> publishStream ''id-2'' ''run-1'' demo_stream w1 = Inr (''id-2'', w2)
           \<and> streams w2 ''id-1'' = Some row1 \<and> streams w2 ''id-2'' = Some row2
           \<and> s_identifier row1 = ''posts'' \<and> s_identifier row2 = ''posts'')"
proof -
  have r: "runs demo_world ''run-1'' = Some demo_run_row" by (simp add: demo_world_def)
  have f1: "streams demo_world ''id-1'' = None" by (simp add: demo_world_def)
  have f2: "streams demo_world ''id-2'' = None" by (simp add: demo_world_def)
  have d: "''id-1'' \<noteq> ''id-2''" by simp
  have i: "st_identifier demo_stream = ''posts''" by (simp add: demo_stream_def)
  from publishStream_inserts_every_time[OF r f1 f2 d, of demo_stream]
  obtain w1 w2 row1 row2 where
    a: "publishStream ''id-1'' ''run-1'' demo_stream demo_world = Inr (''id-1'', w1)"
       "publishStream ''id-2'' ''run-1'' demo_stream w1 = Inr (''id-2'', w2)"
       "streams w2 ''id-1'' = Some row1" "streams w2 ''id-2'' = Some row2"
       "s_identifier row1 = st_identifier demo_stream"
       "s_identifier row2 = st_identifier demo_stream"
    by (elim exE conjE)
  then have "publishStream ''id-1'' ''run-1'' demo_stream demo_world = Inr (''id-1'', w1)
           \<and> publishStream ''id-2'' ''run-1'' demo_stream w1 = Inr (''id-2'', w2)
           \<and> streams w2 ''id-1'' = Some row1 \<and> streams w2 ''id-2'' = Some row2
           \<and> s_identifier row1 = ''posts'' \<and> s_identifier row2 = ''posts''"
    by (simp add: i)
  then have "\<exists>w1 w2 row1 row2.
           publishStream ''id-1'' ''run-1'' demo_stream demo_world = Inr (''id-1'', w1)
           \<and> publishStream ''id-2'' ''run-1'' demo_stream w1 = Inr (''id-2'', w2)
           \<and> streams w2 ''id-1'' = Some row1 \<and> streams w2 ''id-2'' = Some row2
           \<and> s_identifier row1 = ''posts'' \<and> s_identifier row2 = ''posts''"
    by (intro exI)
  with r f1 f2 d show ?thesis by (intro conjI)
qed


section \<open>The stream service\<close>

subsection \<open>Reading the stream\<close>

lemma getStreamData_SomeD:
  assumes "getStreamData streamId w = Some info"
  obtains row r where "streams w streamId = Some row" and "runs w (s_runId row) = Some r"
    and "si_runId info = s_runId row" and "si_retries info = s_retries row"
    and "si_runState info = r_state r" and "si_tenantId info = s_tenantId row"
proof -
  from assms obtain row where row: "streams w streamId = Some row"
    by (cases "streams w streamId") (simp_all add: getStreamData_def)
  from assms row obtain r where r: "runs w (s_runId row) = Some r"
    by (cases "runs w (s_runId row)") (simp_all add: getStreamData_def)
  from assms row r obtain i where i: "integrations w (r_integrationId r) = Some i"
    by (cases "integrations w (r_integrationId r)") (simp_all add: getStreamData_def)
  from assms row r i have nd: "\<not> i_deleted i"
    by (cases "i_deleted i") (simp_all add: getStreamData_def)
  from assms row r i nd
  have "si_runId info = s_runId row" "si_retries info = s_retries row"
    "si_runState info = r_state r" "si_tenantId info = s_tenantId row"
    by (auto simp: getStreamData_def)
  with row r that show thesis by blast
qed

lemma location_error_json [simp]: "location_of (Some (error_json loc msg md)) = Some loc"
  by (simp add: error_json_def)

lemma triggerStreamError_ok:
  assumes "streams w sid = Some row"
  shows "triggerStreamError sid loc msg md w =
           (Inr (), w\<lparr>streams := (streams w)(sid \<mapsto>
              row\<lparr>s_state := S_ERROR, s_error := Some (error_json loc msg md),
                  s_retries := s_retries row + 1, s_updatedAt := clock w\<rparr>)\<rparr>)"
  by (simp add: triggerStreamError_def stmt_def repo_markStreamError_def
        update_stream_Some[OF assms])

lemma triggerRunError_ok:
  assumes "runs w rid = Some r"
  shows "triggerRunError rid loc msg md w =
           (Inr (), w\<lparr>runs := (runs w)(rid \<mapsto>
              r\<lparr>r_state := R_ERROR, r_processedAt := Some (clock w),
                r_error := Some (error_json loc msg md), r_updatedAt := clock w\<rparr>)\<rparr>)"
  by (simp add: triggerRunError_def stmt_def repo_markRunError_def markRunError_update_run
        update_run_Some[OF assms])

text \<open>
  Claim C3. When the stream of a message exists (with its run and integration) and the
  run is in a state other than PROCESSING, \<open>processStream\<close> resolves after marking the
  stream ERROR with location \<open>check-stream-run-state\<close>: no handler is started, nothing
  is published or enqueued, and no other row changes.
\<close>

theorem run_not_processing_marks_stream_error:
  assumes "getStreamData streamId w = Some info" and "si_runState info \<noteq> R_PROCESSING"
  shows "\<exists>w' row row'.
           processStream services maxStreamRetries streamId w = (Inr (), w')
           \<and> streams w streamId = Some row \<and> streams w' streamId = Some row'
           \<and> s_state row' = S_ERROR
           \<and> location_of (s_error row') = Some ''check-stream-run-state''
           \<and> (\<forall>k. k \<noteq> streamId \<longrightarrow> streams w' k = streams w k)
           \<and> invocations w' = invocations w
           \<and> stream_queue w' = stream_queue w \<and> data_queue w' = data_queue w
           \<and> data_rows w' = data_rows w \<and> runs w' = runs w
           \<and> integrations w' = integrations w"
proof -
  from assms(1) obtain row where row: "streams w streamId = Some row"
    by (rule getStreamData_SomeD)
  let ?md = "Some (JObj [(''actualState'', json_of_run_state (si_runState info))])"
  let ?row' = "row\<lparr>s_state := S_ERROR,
                     s_error := Some (error_json ''check-stream-run-state''
                                        ''Run is not in processing state!'' ?md),
                     s_retries := s_retries row + 1, s_updatedAt := clock w\<rparr>"
  let ?w' = "w\<lparr>streams := (streams w)(streamId \<mapsto> ?row')\<rparr>"
  have p: "processStream services maxStreamRetries streamId w = (Inr (), ?w')"
    using assms by (simp add: processStream_def triggerStreamError_ok[OF row])
  from p row
  have "processStream services maxStreamRetries streamId w = (Inr (), ?w')
           \<and> streams w streamId = Some row \<and> streams ?w' streamId = Some ?row'
           \<and> s_state ?row' = S_ERROR
           \<and> location_of (s_error ?row') = Some ''check-stream-run-state''
           \<and> (\<forall>k. k \<noteq> streamId \<longrightarrow> streams ?w' k = streams w k)
           \<and> invocations ?w' = invocations w
           \<and> stream_queue ?w' = stream_queue w \<and> data_queue ?w' = data_queue w
           \<and> data_rows ?w' = data_rows w \<and> runs ?w' = runs w
           \<and> integrations ?w' = integrations w"
    by simp
  then show ?thesis by (intro exI)
qed

subsection \<open>What a handler execution leaves alone\<close>

lemma steady_refl: "steady w w"
  by (simp add: steady_def)

lemma steady_trans:
  assumes "steady a b" and "steady b c"
  shows "steady a c"
proof -
  have "clock c = clock a" using assms by (simp add: steady_def)
  moreover have "\<forall>k. runs a k \<noteq> None \<longrightarrow> runs c k \<noteq> None"
    using assms by (simp add: steady_def)
  moreover have "\<forall>k row. streams a k = Some row \<longrightarrow>
           (\<exists>row'. streams c k = Some row' \<and> s_retries row \<le> s_retries row'
                    \<and> s_runId row' = s_runId row)"
  proof (intro allI impI)
    fix k row
    assume "streams a k = Some row"
    with assms(1) obtain row1 where 1: "streams b k = Some row1"
      and e1: "s_retries row \<le> s_retries row1" "s_runId row1 = s_runId row"
      unfolding steady_def by blast
    from assms(2) 1 obtain row2 where 2: "streams c k = Some row2"
      and e2: "s_retries row1 \<le> s_retries row2" "s_runId row2 = s_runId row1"
      unfolding steady_def by blast
    from 2 e1 e2 show "\<exists>row'. streams c k = Some row' \<and> s_retries row \<le> s_retries row'
                    \<and> s_runId row' = s_runId row"
      by simp
  qed
  ultimately show ?thesis unfolding steady_def by (intro conjI)
qed

lemma steady_update_stream:
  assumes "update_stream sid f w = Inr w'"
    and "\<And>row. s_retries row \<le> s_retries (f row) \<and> s_runId (f row) = s_runId row"
  shows "steady w w'"
proof (cases "streams w sid")
  case None
  with update_stream_None[of w sid f] assms(1) show ?thesis by auto
next
  case (Some row)
  from update_stream_Some[OF Some, of f] assms(1)
  have w': "w' = w\<lparr>streams := (streams w)(sid \<mapsto> f row)\<rparr>" by simp
  show ?thesis unfolding w' steady_def using Some assms(2) by auto
qed

lemma steady_update_run:
  assumes "update_run rid f w = Inr w'"
  shows "steady w w'"
proof (cases "runs w rid")
  case None
  with update_run_None[of w rid f] assms(1) show ?thesis by auto
next
  case (Some r)
  from update_run_Some[OF Some, of f] assms(1)
  have w': "w' = w\<lparr>runs := (runs w)(rid \<mapsto> f r)\<rparr>" by simp
  show ?thesis unfolding w' steady_def by auto
qed

lemma keeps_resolve: "keeps_steady (resolve x)"
  by (simp add: keeps_steady_def resolve_def steady_refl)

lemma keeps_reject: "keeps_steady (reject e)"
  by (simp add: keeps_steady_def reject_def steady_refl)

lemma keeps_await:
  assumes "keeps_steady m" and "\<And>x. keeps_steady (f x)"
  shows "keeps_steady (await m f)"
  unfolding keeps_steady_def
proof
  fix w
  obtain r w1 where m: "m w = (r, w1)" by (cases "m w")
  from assms(1) m have 1: "steady w w1" by (auto simp: keeps_steady_def dest: spec[of _ w])
  show "steady w (snd (await m f w))"
  proof (cases r)
    case (Inl e)
    with m 1 show ?thesis by (simp add: await_def)
  next
    case (Inr x)
    from assms(2)[of x] have "steady w1 (snd (f x w1))" by (simp add: keeps_steady_def)
    with 1 have "steady w (snd (f x w1))" by (rule steady_trans)
    with m Inr show ?thesis by (simp add: await_def)
  qed
qed

lemma keeps_try_catch:
  assumes "keeps_steady m" and "\<And>e. keeps_steady (h e)"
  shows "keeps_steady (try_catch m h)"
  unfolding keeps_steady_def
proof
  fix w
  obtain r w1 where m: "m w = (r, w1)" by (cases "m w")
  from assms(1) m have 1: "steady w w1" by (auto simp: keeps_steady_def dest: spec[of _ w])
  show "steady w (snd (try_catch m h w))"
  proof (cases r)
    case (Inr x)
    with m 1 show ?thesis by (simp add: try_catch_def)
  next
    case (Inl e)
    from assms(2)[of e] have "steady w1 (snd (h e w1))" by (simp add: keeps_steady_def)
    with 1 have "steady w (snd (h e w1))" by (rule steady_trans)
    with m Inl show ?thesis by (simp add: try_catch_def)
  qed
qed

lemma keeps_stmt:
  assumes "\<And>w w'. q w = Inr w' \<Longrightarrow> steady w w'"
  shows "keeps_steady (stmt q)"
  unfolding keeps_steady_def
proof
  fix w
  show "steady w (snd (stmt q w))"
  proof (cases "q w")
    case (Inl e)
    then show ?thesis by (simp add: stmt_def steady_refl)
  next
    case (Inr w')
    with assms[OF Inr] show ?thesis by (simp add: stmt_def)
  qed
qed

lemma keeps_persisting:
  assumes "\<And>w x w'. q w = Inr (x, w') \<Longrightarrow> steady w w'"
  shows "keeps_steady (persisting env q)"
  unfolding keeps_steady_def
proof
  fix w
  show "steady w (snd (persisting env q w))"
  proof (cases "q w")
    case (Inl e)
    then show ?thesis by (simp add: persisting_def steady_refl)
  next
    case (Inr xw)
    obtain x w' where xw: "xw = (x, w')" by (cases xw)
    with Inr assms[of w x w'] show ?thesis by (simp add: persisting_def steady_refl)
  qed
qed

lemma keeps_enqueuing:
  assumes "\<And>w w'. q w = Inr w' \<Longrightarrow> steady w w'"
  shows "keeps_steady (enqueuing env q)"
proof -
  from keeps_stmt[of q, OF assms] have "\<And>w. steady w (snd (stmt q w))"
    by (simp add: keeps_steady_def)
  then show ?thesis by (simp add: keeps_steady_def enqueuing_def steady_refl)
qed

lemma keeps_triggerRunError: "keeps_steady (triggerRunError rid loc msg md)"
  unfolding triggerRunError_def repo_markRunError_def
  by (rule keeps_stmt) (simp add: markRunError_update_run steady_update_run)

lemma keeps_triggerStreamError: "keeps_steady (triggerStreamError sid loc msg md)"
  unfolding triggerStreamError_def
  by (rule keeps_stmt) (simp add: repo_markStreamError_def steady_update_stream)

lemma steady_repo_updateIntegrationSettings:
  "repo_updateIntegrationSettings sid settings w = Inr w' \<Longrightarrow> steady w w'"
  by (auto simp: repo_updateIntegrationSettings_def update_where_id_def Let_def
        checkUpdateRowCount_def steady_def split: option.splits if_splits sum.splits prod.splits)

lemma steady_repo_publishStream:
  "repo_publishStream newId parentId runId ident payload w = Inr (x, w') \<Longrightarrow> steady w w'"
  by (auto simp: repo_publishStream_def checkUpdateRowCount_def steady_def
        split: option.splits if_splits)

lemma steady_repo_publishData:
  "repo_publishData newId sid payload w = Inr (x, w') \<Longrightarrow> steady w w'"
  by (auto simp: repo_publishData_def checkUpdateRowCount_def steady_def
        split: option.splits if_splits)

lemma steady_triggerStreamProcessing:
  "triggerStreamProcessing t sid w = Inr w' \<Longrightarrow> steady w w'"
  by (auto simp: triggerStreamProcessing_def steady_def)

lemma steady_triggerDataProcessing:
  "triggerDataProcessing t did w = Inr w' \<Longrightarrow> steady w w'"
  by (auto simp: triggerDataProcessing_def steady_def)

lemma keeps_svc_updateIntegrationSettings:
  "keeps_steady (svc_updateIntegrationSettings sid settings)"
  unfolding svc_updateIntegrationSettings_def
  by (intro keeps_try_catch keeps_await keeps_stmt keeps_triggerRunError keeps_reject)
     (rule steady_repo_updateIntegrationSettings)

lemma keeps_publish_child:
  "keeps_steady (publish_child env newId parentId tenantId runId ident payload)"
  unfolding publish_child_def
  by (intro keeps_await keeps_persisting keeps_enqueuing)
     (erule steady_repo_publishStream steady_triggerStreamProcessing)+

lemma keeps_publish_item:
  "keeps_steady (publish_item env newId tenantId sid payload)"
  unfolding publish_item_def
  by (intro keeps_await keeps_persisting keeps_enqueuing)
     (erule steady_repo_publishData steady_triggerDataProcessing)+

lemma keeps_svc_publishStream:
  "keeps_steady (svc_publishStream env newId parentId tenantId runId ident payload)"
  unfolding svc_publishStream_def
  by (intro keeps_try_catch keeps_await keeps_publish_child keeps_triggerRunError keeps_reject)

lemma keeps_svc_publishData:
  "keeps_steady (svc_publishData env newId tenantId runId sid payload)"
  unfolding svc_publishData_def
  by (intro keeps_try_catch keeps_await keeps_publish_item keeps_triggerRunError keeps_reject)

lemma keeps_context_call: "keeps_steady (context_call info sid c newId env)"
  by (cases c)
     (simp_all add: keeps_svc_publishData keeps_svc_publishStream
        keeps_svc_updateIntegrationSettings keeps_triggerStreamError keeps_triggerRunError)

lemma keeps_run_handler: "keeps_steady (run_handler info sid h)"
proof (induction h)
  case Return
  show ?case by (simp add: keeps_resolve)
next
  case (Throw e)
  show ?case by (simp add: keeps_reject)
next
  case (Call c newId env k)
  show ?case unfolding keeps_steady_def
  proof
    fix w
    obtain r w1 where a: "answer (context_call info sid c newId env) w = (r, w1)"
      by (cases "answer (context_call info sid c newId env) w")
    have "w1 = snd (context_call info sid c newId env w)"
      using a by (auto simp: answer_def split: prod.splits sum.splits)
    with keeps_context_call[of info sid c newId env] have 1: "steady w w1"
      by (simp add: keeps_steady_def)
    have "k r \<in> range k" by simp
    from Call.IH[OF this] have "steady w1 (snd (run_handler info sid (k r) w1))"
      by (simp add: keeps_steady_def)
    with 1 have "steady w (snd (run_handler info sid (k r) w1))" by (rule steady_trans)
    with a show "steady w (snd (run_handler info sid (Call c newId env k) w))" by simp
  qed
qed

lemma steady_invoke_handler:
  assumes "invoke_handler handler info sid w = (r, w')"
  shows "steady w w'"
proof -
  let ?w0 = "w\<lparr>invocations := invocations w @ [sid]\<rparr>"
  have 0: "steady w ?w0" by (simp add: steady_def)
  from keeps_run_handler[of info sid "handler (context_of info)"]
  have "steady ?w0 (snd (run_handler info sid (handler (context_of info)) ?w0))"
    by (simp add: keeps_steady_def)
  with assms have "steady ?w0 w'" by (simp add: invoke_handler_def)
  with 0 show ?thesis by (rule steady_trans)
qed

subsection \<open>The statements of the stream repository\<close>

lemma repo_resetStream_ok:
  assumes "streams w sid = Some row"
  shows "repo_resetStream sid w =
           Inr (w\<lparr>streams := (streams w)(sid \<mapsto>
              row\<lparr>s_state := S_PENDING, s_delayedUntil := None, s_error := None,
                  s_updatedAt := clock w\<rparr>)\<rparr>)"
  by (simp add: repo_resetStream_def update_stream_Some[OF assms])

lemma repo_delayStream_ok:
  assumes "streams w sid = Some row"
  shows "repo_delayStream sid until w =
           Inr (w\<lparr>streams := (streams w)(sid \<mapsto>
              row\<lparr>s_state := S_DELAYED, s_delayedUntil := Some until,
                  s_updatedAt := clock w\<rparr>)\<rparr>)"
  by (simp add: repo_delayStream_def update_stream_Some[OF assms])

lemma repo_delayRun_ok:
  assumes "runs w rid = Some r"
  shows "repo_delayRun rid until w =
           Inr (w\<lparr>runs := (runs w)(rid \<mapsto>
              r\<lparr>r_state := R_DELAYED, r_delayedUntil := Some until,
                r_updatedAt := clock w\<rparr>)\<rparr>)"
  by (simp add: repo_delayRun_def update_run_Some[OF assms])

lemma steady_markStreamInProgress:
  assumes "repo_markStreamInProgress sid w = Inr w1"
  shows "steady w w1"
proof (cases "streams w sid")
  case None
  with assms show ?thesis
    by (simp add: repo_markStreamInProgress_def checkUpdateRowCount_def)
next
  case (Some row)
  with assms have "update_stream sid (\<lambda>s. s\<lparr>s_state := S_PROCESSING, s_updatedAt := clock w\<rparr>) w
                     = Inr w1"
    by (simp add: repo_markStreamInProgress_def checkUpdateRowCount_def split: if_splits)
  then show ?thesis by (rule steady_update_stream) simp
qed

subsection \<open>When the handler fails\<close>

lemma processStream_handler_fails:
  assumes "getStreamData sid w = Some info" and "si_runState info = R_PROCESSING"
    and "services (si_integrationType info) = Some handler"
    and "repo_markStreamInProgress sid w = Inr w1"
    and "invoke_handler handler info sid w1 = (Inl e, w2)"
  shows "processStream services maxStreamRetries sid w
           = on_handler_error maxStreamRetries info sid e w2"
  using assms by (simp add: processStream_def await_def try_catch_def stmt_def)

lemma after_handler:
  assumes "getStreamData sid w = Some info"
    and "repo_markStreamInProgress sid w = Inr w1"
    and "invoke_handler handler info sid w1 = (r, w2)"
  obtains row2 r2 where "streams w2 sid = Some row2" and "si_retries info \<le> s_retries row2"
    and "runs w2 (si_runId info) = Some r2" and "clock w2 = clock w"
proof -
  from assms(1) obtain row r0 where row: "streams w sid = Some row"
    and r0: "runs w (s_runId row) = Some r0"
    and e: "si_runId info = s_runId row" "si_retries info = s_retries row"
    by (rule getStreamData_SomeD)
  have "steady w w2"
    using steady_markStreamInProgress[OF assms(2)] steady_invoke_handler[OF assms(3)]
    by (rule steady_trans)
  then have c: "clock w2 = clock w"
    and rs: "\<forall>k. runs w k \<noteq> None \<longrightarrow> runs w2 k \<noteq> None"
    and ss: "\<forall>k row. streams w k = Some row \<longrightarrow>
           (\<exists>row'. streams w2 k = Some row' \<and> s_retries row \<le> s_retries row'
                    \<and> s_runId row' = s_runId row)"
    by (simp_all add: steady_def)
  from ss row obtain row2 where 1: "streams w2 sid = Some row2"
    and 2: "s_retries row \<le> s_retries row2"
    by blast
  from rs r0 e obtain r2 where 3: "runs w2 (si_runId info) = Some r2"
    by (cases "runs w2 (si_runId info)") auto
  from 1 2 3 c e that show thesis by simp
qed

lemma on_rate_limit:
  assumes "streams w2 sid = Some row2" and "runs w2 (si_runId info) = Some r2"
    and "valid_Date (clock w2 + 1000 * secs)"
  shows "\<exists>w' row' run'.
           on_handler_error maxStreamRetries info sid (RateLimitError secs) w2 = (Inr (), w')
           \<and> streams w' sid = Some row' \<and> s_state row' = S_PENDING
           \<and> s_retries row' = s_retries row2
           \<and> runs w' (si_runId info) = Some run' \<and> r_state run' = R_DELAYED
           \<and> r_delayedUntil run' = Some (clock w2 + 1000 * secs)"
proof -
  let ?row' = "row2\<lparr>s_state := S_PENDING, s_delayedUntil := None, s_error := None,
                      s_updatedAt := clock w2\<rparr>"
  let ?w3 = "w2\<lparr>streams := (streams w2)(sid \<mapsto> ?row')\<rparr>"
  let ?run' = "r2\<lparr>r_state := R_DELAYED, r_delayedUntil := Some (clock w2 + 1000 * secs),
                    r_updatedAt := clock w2\<rparr>"
  let ?w' = "?w3\<lparr>runs := (runs ?w3)(si_runId info \<mapsto> ?run')\<rparr>"
  have r3: "runs ?w3 (si_runId info) = Some r2" using assms(2) by simp
  have "on_handler_error maxStreamRetries info sid (RateLimitError secs) w2 = (Inr (), ?w')"
    using assms(3)
    by (simp add: on_handler_error_def await_def new_Date_def stmt_def addSeconds_def
          toISOString_def resolve_def repo_resetStream_ok[OF assms(1)] repo_delayRun_ok[OF r3])
  then have "on_handler_error maxStreamRetries info sid (RateLimitError secs) w2 = (Inr (), ?w')
           \<and> streams ?w' sid = Some ?row' \<and> s_state ?row' = S_PENDING
           \<and> s_retries ?row' = s_retries row2
           \<and> runs ?w' (si_runId info) = Some ?run' \<and> r_state ?run' = R_DELAYED
           \<and> r_delayedUntil ?run' = Some (clock w2 + 1000 * secs)"
    by simp
  then show ?thesis by (intro exI)
qed


lemma on_error_retry:
  assumes "streams w2 sid = Some row2" and "si_retries info + 1 \<le> maxStreamRetries"
    and "valid_Date (clock w2 + 900000 * (si_retries info + 1))"
  shows "\<exists>w' row'.
           on_handler_error maxStreamRetries info sid (Error m) w2 = (Inr (), w')
           \<and> streams w' sid = Some row'
           \<and> location_of (s_error row') = Some ''stream-process''
           \<and> s_state row' = S_DELAYED
           \<and> s_delayedUntil row' = Some (clock w2 + 900000 * (si_retries info + 1))
           \<and> s_retries row' = s_retries row2 + 1
           \<and> runs w' = runs w2"
proof -
  let ?err = "error_json ''stream-process'' ''Error while processing stream!''
                (Some (JObj [(''error'', json_of_thrown (Error m))]))"
  let ?row1 = "row2\<lparr>s_state := S_ERROR, s_error := Some ?err,
                      s_retries := s_retries row2 + 1, s_updatedAt := clock w2\<rparr>"
  let ?w3 = "w2\<lparr>streams := (streams w2)(sid \<mapsto> ?row1)\<rparr>"
  let ?until = "clock w2 + 900000 * (si_retries info + 1)"
  let ?row' = "?row1\<lparr>s_state := S_DELAYED, s_delayedUntil := Some ?until,
                      s_updatedAt := clock ?w3\<rparr>"
  let ?w' = "?w3\<lparr>streams := (streams ?w3)(sid \<mapsto> ?row')\<rparr>"
  have s3: "streams ?w3 sid = Some ?row1" by simp
  have "on_handler_error maxStreamRetries info sid (Error m) w2 = (Inr (), ?w')"
    unfolding on_handler_error_def
    using assms(3)
    by (simp add: await_def new_Date_def stmt_def triggerStreamError_ok[OF assms(1)]
          repo_delayStream_ok[OF s3] assms(2) addSeconds_def toISOString_def resolve_def
          del: json_of_thrown.simps)
  then have "on_handler_error maxStreamRetries info sid (Error m) w2 = (Inr (), ?w')
           \<and> streams ?w' sid = Some ?row'
           \<and> location_of (s_error ?row') = Some ''stream-process''
           \<and> s_state ?row' = S_DELAYED
           \<and> s_delayedUntil ?row' = Some ?until
           \<and> s_retries ?row' = s_retries row2 + 1
           \<and> runs ?w' = runs w2"
    by simp
  then show ?thesis by (intro exI)
qed

lemma on_error_exhausted:
  assumes "streams w2 sid = Some row2" and "runs w2 (si_runId info) = Some r2"
    and "\<not> si_retries info + 1 \<le> maxStreamRetries"
  shows "\<exists>w' row' run'.
           on_handler_error maxStreamRetries info sid (Error m) w2 = (Inr (), w')
           \<and> streams w' sid = Some row'
           \<and> location_of (s_error row') = Some ''stream-process''
           \<and> s_state row' = S_ERROR
           \<and> s_retries row' = s_retries row2 + 1
           \<and> runs w' (si_runId info) = Some run' \<and> r_state run' = R_ERROR
           \<and> location_of (r_error run') = Some ''stream-run-stop''"
proof -
  let ?err = "error_json ''stream-process'' ''Error while processing stream!''
                (Some (JObj [(''error'', json_of_thrown (Error m))]))"
  let ?row' = "row2\<lparr>s_state := S_ERROR, s_error := Some ?err,
                      s_retries := s_retries row2 + 1, s_updatedAt := clock w2\<rparr>"
  let ?w3 = "w2\<lparr>streams := (streams w2)(sid \<mapsto> ?row')\<rparr>"
  let ?rerr = "error_json ''stream-run-stop'' ''Stream reached maximum retries!''
                 (Some (JObj [(''retries'', JNum (si_retries info + 1)),
                              (''maxRetries'', JNum maxStreamRetries)]))"
  let ?run' = "r2\<lparr>r_state := R_ERROR, r_processedAt := Some (clock ?w3),
                    r_error := Some ?rerr, r_updatedAt := clock ?w3\<rparr>"
  let ?w' = "?w3\<lparr>runs := (runs ?w3)(si_runId info \<mapsto> ?run')\<rparr>"
  have r3: "runs ?w3 (si_runId info) = Some r2" using assms(2) by simp
  have "on_handler_error maxStreamRetries info sid (Error m) w2 = (Inr (), ?w')"
    unfolding on_handler_error_def
    by (simp add: await_def triggerStreamError_ok[OF assms(1)] triggerRunError_ok[OF r3]
          assms(3) del: json_of_thrown.simps)
  then have "on_handler_error maxStreamRetries info sid (Error m) w2 = (Inr (), ?w')
           \<and> streams ?w' sid = Some ?row'
           \<and> location_of (s_error ?row') = Some ''stream-process''
           \<and> s_state ?row' = S_ERROR
           \<and> s_retries ?row' = s_retries row2 + 1
           \<and> runs ?w' (si_runId info) = Some ?run' \<and> r_state ?run' = R_ERROR
           \<and> location_of (r_error ?run') = Some ''stream-run-stop''"
    by simp
  then show ?thesis by (intro exI)
qed

text \<open>
  With a valid date, a rate limit resets the stream to PENDING, with the retries the
  handler left, and delays the run, whatever the handler called before it threw.
\<close>

lemma rate_limit_with_valid_date:
  assumes "getStreamData streamId w = Some info" and "si_runState info = R_PROCESSING"
    and "services (si_integrationType info) = Some handler"
    and "repo_markStreamInProgress streamId w = Inr w1"
    and "invoke_handler handler info streamId w1 = (Inl (RateLimitError secs), w2)"
    and "valid_Date (clock w + 1000 * secs)"
  shows "\<exists>w' row2 row' run'.
           processStream services maxStreamRetries streamId w = (Inr (), w')
           \<and> streams w2 streamId = Some row2
           \<and> streams w' streamId = Some row' \<and> s_state row' = S_PENDING
           \<and> s_retries row' = s_retries row2
           \<and> runs w' (si_runId info) = Some run' \<and> r_state run' = R_DELAYED
           \<and> r_delayedUntil run' = Some (clock w + 1000 * secs)"
proof -
  from after_handler[OF assms(1,4,5)]
  obtain row2 r2 where s2: "streams w2 streamId = Some row2"
    and r2: "runs w2 (si_runId info) = Some r2" and c: "clock w2 = clock w"
    by blast
  from assms(6) c have v: "valid_Date (clock w2 + 1000 * secs)" by simp
  from on_rate_limit[OF s2 r2 v, of maxStreamRetries]
  obtain w' row' run' where
    "on_handler_error maxStreamRetries info streamId (RateLimitError secs) w2 = (Inr (), w')"
    "streams w' streamId = Some row'" "s_state row' = S_PENDING"
    "s_retries row' = s_retries row2"
    "runs w' (si_runId info) = Some run'" "r_state run' = R_DELAYED"
    "r_delayedUntil run' = Some (clock w2 + 1000 * secs)"
    by (elim exE conjE)
  with s2 c processStream_handler_fails[where services=services and maxStreamRetries=maxStreamRetries, OF assms(1-5)]
  have "processStream services maxStreamRetries streamId w = (Inr (), w')
           \<and> streams w2 streamId = Some row2
           \<and> streams w' streamId = Some row' \<and> s_state row' = S_PENDING
           \<and> s_retries row' = s_retries row2
           \<and> runs w' (si_runId info) = Some run' \<and> r_state run' = R_DELAYED
           \<and> r_delayedUntil run' = Some (clock w + 1000 * secs)"
    by simp
  then show ?thesis by (intro exI)
qed

subsection \<open>The concrete stream\<close>

lemma demo_getStreamData: "getStreamData ''stream-1'' demo_world = Some demo_info"
  by (simp add: getStreamData_def demo_world_def demo_stream_row_def demo_run_row_def
        demo_integration_row_def demo_info_def)

lemma demo_markStreamInProgress:
  "repo_markStreamInProgress ''stream-1'' demo_world = Inr demo_in_progress"
proof -
  have s: "streams demo_world ''stream-1'' = Some demo_stream_row"
    by (simp add: demo_world_def)
  have "s_state demo_stream_row = S_PENDING" by (simp add: demo_stream_row_def)
  then show ?thesis
    by (simp add: repo_markStreamInProgress_def s update_stream_Some[OF s] demo_in_progress_def)
qed

lemma demo_invoke_rate_limited:
  "invoke_handler demo_rate_limited_handler demo_info ''stream-1'' demo_in_progress
     = (Inl (RateLimitError 0), demo_invoked)"
  by (simp add: invoke_handler_def demo_rate_limited_handler_def reject_def demo_invoked_def)


lemma demo_invoke_failing:
  "invoke_handler demo_failing_handler demo_info ''stream-1'' demo_in_progress
     = (Inl (Error ''timeout''), demo_invoked)"
  by (simp add: invoke_handler_def demo_failing_handler_def reject_def demo_invoked_def)

lemma demo_info_fields:
  "si_runState demo_info = R_PROCESSING" "si_integrationType demo_info = ''linkedin''"
  "si_retries demo_info = 1" "si_runId demo_info = ''run-1''"
  by (simp_all add: demo_info_def)

lemma demo_invoked_rows:
  "streams demo_invoked ''stream-1''
     = Some (demo_stream_row\<lparr>s_state := S_PROCESSING, s_updatedAt := 1700000000000\<rparr>)"
  "runs demo_invoked ''run-1'' = Some demo_run_row"
  "clock demo_invoked = 1700000000000"
  by (simp_all add: demo_invoked_def demo_in_progress_def demo_world_def)

text \<open>A rate limit of 0 seconds: the stream is PENDING again and the run DELAYED until now.\<close>

lemma rate_limit_zero_seconds:
  "\<exists>w' row' run'.
     processStream [''linkedin'' \<mapsto> demo_rate_limited_handler] 2 ''stream-1'' demo_world
       = (Inr (), w')
     \<and> streams w' ''stream-1'' = Some row' \<and> s_state row' = S_PENDING
     \<and> s_retries row' = 1
     \<and> runs w' ''run-1'' = Some run' \<and> r_state run' = R_DELAYED
     \<and> r_delayedUntil run' = Some 1700000000000"
proof -
  have s: "[''linkedin'' \<mapsto> demo_rate_limited_handler] (si_integrationType demo_info)
       = Some demo_rate_limited_handler"
    by (simp add: demo_info_fields)
  have c: "clock demo_world = 1700000000000" by (simp add: demo_world_def)
  have v: "valid_Date (clock demo_world + 1000 * 0)" by (simp add: c valid_Date_def)
  from rate_limit_with_valid_date[
      where services="[''linkedin'' \<mapsto> demo_rate_limited_handler]" and maxStreamRetries=2,
      OF demo_getStreamData demo_info_fields(1) s
      demo_markStreamInProgress demo_invoke_rate_limited v]
  obtain w' row2 row' run' where
    "processStream [''linkedin'' \<mapsto> demo_rate_limited_handler] 2 ''stream-1'' demo_world
       = (Inr (), w')"
    "streams demo_invoked ''stream-1'' = Some row2"
    "streams w' ''stream-1'' = Some row'" "s_state row' = S_PENDING"
    "s_retries row' = s_retries row2"
    "runs w' (si_runId demo_info) = Some run'" "r_state run' = R_DELAYED"
    "r_delayedUntil run' = Some (clock demo_world + 1000 * 0)"
    by (elim exE conjE)
  then have "processStream [''linkedin'' \<mapsto> demo_rate_limited_handler] 2 ''stream-1'' demo_world
       = (Inr (), w')
     \<and> streams w' ''stream-1'' = Some row' \<and> s_state row' = S_PENDING
     \<and> s_retries row' = 1
     \<and> runs w' ''run-1'' = Some run' \<and> r_state run' = R_DELAYED
     \<and> r_delayedUntil run' = Some 1700000000000"
    by (auto simp: demo_invoked_rows demo_info_fields c demo_stream_row_def)
  then show ?thesis by (intro exI)
qed


text \<open>
  Claim C1. When the handler of a stream fails with an error that is not a
  \<open>RateLimitError\<close>, \<open>processStream\<close> first records the error on the stream (location
  \<open>stream-process\<close>), which counts the failure in its retries. If retries + 1 is at
  most \<open>maxStreamRetries\<close>, the stream is then DELAYED until the current time plus
  (retries + 1) times 15 minutes, this being a valid date, and no run changes;
  otherwise the stream is left ERROR and the owning run is marked ERROR with location
  \<open>stream-run-stop\<close>. In both cases \<open>processStream\<close> resolves, and the stream ends
  with one retry more than the handler left, which is at least what it started with.
\<close>

theorem handler_error_retries_or_stops_run:
  assumes "getStreamData streamId w = Some info" and "si_runState info = R_PROCESSING"
    and "services (si_integrationType info) = Some handler"
    and "repo_markStreamInProgress streamId w = Inr w1"
    and "invoke_handler handler info streamId w1 = (Inl (Error msg), w2)"
  shows "\<exists>row2.
           streams w2 streamId = Some row2 \<and> si_retries info \<le> s_retries row2
           \<and> (si_retries info + 1 \<le> maxStreamRetries
                \<and> valid_Date (clock w + 900000 * (si_retries info + 1)) \<longrightarrow>
                (\<exists>w' row'.
                   processStream services maxStreamRetries streamId w = (Inr (), w')
                   \<and> streams w' streamId = Some row'
                   \<and> location_of (s_error row') = Some ''stream-process''
                   \<and> s_state row' = S_DELAYED
                   \<and> s_delayedUntil row' = Some (clock w + 900000 * (si_retries info + 1))
                   \<and> s_retries row' = s_retries row2 + 1
                   \<and> runs w' = runs w2))
           \<and> (\<not> si_retries info + 1 \<le> maxStreamRetries \<longrightarrow>
                (\<exists>w' row' run'.
                   processStream services maxStreamRetries streamId w = (Inr (), w')
                   \<and> streams w' streamId = Some row'
                   \<and> location_of (s_error row') = Some ''stream-process''
                   \<and> s_state row' = S_ERROR
                   \<and> s_retries row' = s_retries row2 + 1
                   \<and> runs w' (si_runId info) = Some run' \<and> r_state run' = R_ERROR
                   \<and> location_of (r_error run') = Some ''stream-run-stop''))"
proof -
  from after_handler[OF assms(1,4,5)]
  obtain row2 r2 where s2: "streams w2 streamId = Some row2"
    and ge: "si_retries info \<le> s_retries row2"
    and r2: "runs w2 (si_runId info) = Some r2" and c: "clock w2 = clock w"
    by blast
  note p = processStream_handler_fails[where services=services and maxStreamRetries=maxStreamRetries, OF assms]
  have retry: "si_retries info + 1 \<le> maxStreamRetries
                \<and> valid_Date (clock w + 900000 * (si_retries info + 1)) \<longrightarrow>
                (\<exists>w' row'.
                   processStream services maxStreamRetries streamId w = (Inr (), w')
                   \<and> streams w' streamId = Some row'
                   \<and> location_of (s_error row') = Some ''stream-process''
                   \<and> s_state row' = S_DELAYED
                   \<and> s_delayedUntil row' = Some (clock w + 900000 * (si_retries info + 1))
                   \<and> s_retries row' = s_retries row2 + 1
                   \<and> runs w' = runs w2)"
  proof
    assume h: "si_retries info + 1 \<le> maxStreamRetries
                \<and> valid_Date (clock w + 900000 * (si_retries info + 1))"
    then have le: "si_retries info + 1 \<le> maxStreamRetries" by (rule conjunct1)
    from h c have v: "valid_Date (clock w2 + 900000 * (si_retries info + 1))" by simp
    from on_error_retry[OF s2 le v, of msg]
    obtain w' row' where
      "on_handler_error maxStreamRetries info streamId (Error msg) w2 = (Inr (), w')"
      "streams w' streamId = Some row'"
      "location_of (s_error row') = Some ''stream-process''"
      "s_state row' = S_DELAYED"
      "s_delayedUntil row' = Some (clock w2 + 900000 * (si_retries info + 1))"
      "s_retries row' = s_retries row2 + 1"
      "runs w' = runs w2"
      by (elim exE conjE)
    with c p
    have "processStream services maxStreamRetries streamId w = (Inr (), w')
                   \<and> streams w' streamId = Some row'
                   \<and> location_of (s_error row') = Some ''stream-process''
                   \<and> s_state row' = S_DELAYED
                   \<and> s_delayedUntil row' = Some (clock w + 900000 * (si_retries info + 1))
                   \<and> s_retries row' = s_retries row2 + 1
                   \<and> runs w' = runs w2"
      by simp
    then show "\<exists>w' row'.
                   processStream services maxStreamRetries streamId w = (Inr (), w')
                   \<and> streams w' streamId = Some row'
                   \<and> location_of (s_error row') = Some ''stream-process''
                   \<and> s_state row' = S_DELAYED
                   \<and> s_delayedUntil row' = Some (clock w + 900000 * (si_retries info + 1))
                   \<and> s_retries row' = s_retries row2 + 1
                   \<and> runs w' = runs w2"
      by (intro exI)
  qed
  have stop: "\<not> si_retries info + 1 \<le> maxStreamRetries \<longrightarrow>
                (\<exists>w' row' run'.
                   processStream services maxStreamRetries streamId w = (Inr (), w')
                   \<and> streams w' streamId = Some row'
                   \<and> location_of (s_error row') = Some ''stream-process''
                   \<and> s_state row' = S_ERROR
                   \<and> s_retries row' = s_retries row2 + 1
                   \<and> runs w' (si_runId info) = Some run' \<and> r_state run' = R_ERROR
                   \<and> location_of (r_error run') = Some ''stream-run-stop'')"
  proof
    assume nle: "\<not> si_retries info + 1 \<le> maxStreamRetries"
    from on_error_exhausted[OF s2 r2 nle, of msg]
    obtain w' row' run' where
      "on_handler_error maxStreamRetries info streamId (Error msg) w2 = (Inr (), w')"
      "streams w' streamId = Some row'"
      "location_of (s_error row') = Some ''stream-process''"
      "s_state row' = S_ERROR"
      "s_retries row' = s_retries row2 + 1"
      "runs w' (si_runId info) = Some run'" "r_state run' = R_ERROR"
      "location_of (r_error run') = Some ''stream-run-stop''"
      by (elim exE conjE)
    with p
    have "processStream services maxStreamRetries streamId w = (Inr (), w')
                   \<and> streams w' streamId = Some row'
                   \<and> location_of (s_error row') = Some ''stream-process''
                   \<and> s_state row' = S_ERROR
                   \<and> s_retries row' = s_retries row2 + 1
                   \<and> runs w' (si_runId info) = Some run' \<and> r_state run' = R_ERROR
                   \<and> location_of (r_error run') = Some ''stream-run-stop''"
      by simp
    then show "\<exists>w' row' run'.
                   processStream services maxStreamRetries streamId w = (Inr (), w')
                   \<and> streams w' streamId = Some row'
                   \<and> location_of (s_error row') = Some ''stream-process''
                   \<and> s_state row' = S_ERROR
                   \<and> s_retries row' = s_retries row2 + 1
                   \<and> runs w' (si_runId info) = Some run' \<and> r_state run' = R_ERROR
                   \<and> location_of (r_error run') = Some ''stream-run-stop''"
      by (intro exI)
  qed
  from s2 ge retry stop show ?thesis by (intro exI conjI)
qed

theorem handler_error_retries_or_stops_run_witness:
  "getStreamData ''stream-1'' demo_world = Some demo_info
   \<and> si_runState demo_info = R_PROCESSING
   \<and> [''linkedin'' \<mapsto> demo_failing_handler] (si_integrationType demo_info)
       = Some demo_failing_handler
   \<and> repo_markStreamInProgress ''stream-1'' demo_world = Inr demo_in_progress
   \<and> invoke_handler demo_failing_handler demo_info ''stream-1'' demo_in_progress
       = (Inl (Error ''timeout''), demo_invoked)
   \<and> si_retries demo_info + 1 \<le> 2
   \<and> valid_Date (clock demo_world + 900000 * (si_retries demo_info + 1))
   \<and> (\<exists>w' row'.
         processStream [''linkedin'' \<mapsto> demo_failing_handler] 2 ''stream-1'' demo_world
           = (Inr (), w')
         \<and> streams w' ''stream-1'' = Some row'
         \<and> location_of (s_error row') = Some ''stream-process''
         \<and> s_state row' = S_DELAYED
         \<and> s_delayedUntil row' = Some 1700001800000
         \<and> s_retries row' = 2
         \<and> runs w' = runs demo_invoked)
   \<and> \<not> si_retries demo_info + 1 \<le> 1
   \<and> (\<exists>w' row' run'.
         processStream [''linkedin'' \<mapsto> demo_failing_handler] 1 ''stream-1'' demo_world
           = (Inr (), w')
         \<and> streams w' ''stream-1'' = Some row'
         \<and> location_of (s_error row') = Some ''stream-process''
         \<and> s_state row' = S_ERROR
         \<and> s_retries row' = 2
         \<and> runs w' ''run-1'' = Some run' \<and> r_state run' = R_ERROR
         \<and> location_of (r_error run') = Some ''stream-run-stop'')"
proof -
  have s: "[''linkedin'' \<mapsto> demo_failing_handler] (si_integrationType demo_info)
       = Some demo_failing_handler"
    by (simp add: demo_info_fields)
  have c: "clock demo_world = 1700000000000" by (simp add: demo_world_def)
  have le: "si_retries demo_info + 1 \<le> 2" and nle: "\<not> si_retries demo_info + 1 \<le> 1"
    by (simp_all add: demo_info_fields)
  have v: "valid_Date (clock demo_world + 900000 * (si_retries demo_info + 1))"
    by (simp add: c demo_info_fields valid_Date_def)
  have r: "\<And>row2. streams demo_invoked ''stream-1'' = Some row2 \<Longrightarrow> s_retries row2 = 1"
    by (auto simp: demo_invoked_rows demo_stream_row_def)
  from handler_error_retries_or_stops_run[
      where services="[''linkedin'' \<mapsto> demo_failing_handler]" and maxStreamRetries=2,
      OF demo_getStreamData demo_info_fields(1) s
      demo_markStreamInProgress demo_invoke_failing]
  obtain rowa where sa: "streams demo_invoked ''stream-1'' = Some rowa"
    and a0: "si_retries demo_info + 1 \<le> 2
                \<and> valid_Date (clock demo_world + 900000 * (si_retries demo_info + 1)) \<longrightarrow>
                (\<exists>w' row'.
                   processStream [''linkedin'' \<mapsto> demo_failing_handler] 2 ''stream-1'' demo_world
                     = (Inr (), w')
                   \<and> streams w' ''stream-1'' = Some row'
                   \<and> location_of (s_error row') = Some ''stream-process''
                   \<and> s_state row' = S_DELAYED
                   \<and> s_delayedUntil row'
                       = Some (clock demo_world + 900000 * (si_retries demo_info + 1))
                   \<and> s_retries row' = s_retries rowa + 1
                   \<and> runs w' = runs demo_invoked)"
    by (elim exE conjE)
  from a0 le v r[OF sa]
  have a: "\<exists>w' row'.
         processStream [''linkedin'' \<mapsto> demo_failing_handler] 2 ''stream-1'' demo_world
           = (Inr (), w')
         \<and> streams w' ''stream-1'' = Some row'
         \<and> location_of (s_error row') = Some ''stream-process''
         \<and> s_state row' = S_DELAYED
         \<and> s_delayedUntil row' = Some 1700001800000
         \<and> s_retries row' = 2
         \<and> runs w' = runs demo_invoked"
    by (simp add: demo_info_fields c)
  from handler_error_retries_or_stops_run[
      where services="[''linkedin'' \<mapsto> demo_failing_handler]" and maxStreamRetries=1,
      OF demo_getStreamData demo_info_fields(1) s
      demo_markStreamInProgress demo_invoke_failing]
  obtain rowb where sb: "streams demo_invoked ''stream-1'' = Some rowb"
    and b0: "\<not> si_retries demo_info + 1 \<le> 1 \<longrightarrow>
                (\<exists>w' row' run'.
                   processStream [''linkedin'' \<mapsto> demo_failing_handler] 1 ''stream-1'' demo_world
                     = (Inr (), w')
                   \<and> streams w' ''stream-1'' = Some row'
                   \<and> location_of (s_error row') = Some ''stream-process''
                   \<and> s_state row' = S_ERROR
                   \<and> s_retries row' = s_retries rowb + 1
                   \<and> runs w' (si_runId demo_info) = Some run' \<and> r_state run' = R_ERROR
                   \<and> location_of (r_error run') = Some ''stream-run-stop'')"
    by (elim exE conjE)
  from b0 nle r[OF sb]
  have b: "\<exists>w' row' run'.
         processStream [''linkedin'' \<mapsto> demo_failing_handler] 1 ''stream-1'' demo_world
           = (Inr (), w')
         \<and> streams w' ''stream-1'' = Some row'
         \<and> location_of (s_error row') = Some ''stream-process''
         \<and> s_state row' = S_ERROR
         \<and> s_retries row' = 2
         \<and> runs w' ''run-1'' = Some run' \<and> r_state run' = R_ERROR
         \<and> location_of (r_error run') = Some ''stream-run-stop''"
    by (simp add: demo_info_fields)
  from demo_getStreamData demo_info_fields(1) s demo_markStreamInProgress
    demo_invoke_failing le v a nle b
  show ?thesis by (intro conjI)
qed

lemma demo_delayed_getStreamData:
  "getStreamData ''stream-1'' demo_delayed_world = Some (demo_info\<lparr>si_runState := R_DELAYED\<rparr>)"
  by (simp add: getStreamData_def demo_delayed_world_def demo_world_def demo_stream_row_def
        demo_run_row_def demo_integration_row_def demo_info_def)

theorem run_not_processing_marks_stream_error_witness:
  "getStreamData ''stream-1'' demo_delayed_world = Some (demo_info\<lparr>si_runState := R_DELAYED\<rparr>)
   \<and> si_runState (demo_info\<lparr>si_runState := R_DELAYED\<rparr>) \<noteq> R_PROCESSING
   \<and> (\<exists>w' row'.
         processStream [''linkedin'' \<mapsto> demo_failing_handler] 2 ''stream-1'' demo_delayed_world
           = (Inr (), w')
         \<and> streams w' ''stream-1'' = Some row'
         \<and> s_state row' = S_ERROR
         \<and> location_of (s_error row') = Some ''check-stream-run-state''
         \<and> invocations w' = [] \<and> stream_queue w' = [] \<and> data_queue w' = [])"
proof -
  have n: "si_runState (demo_info\<lparr>si_runState := R_DELAYED\<rparr>) \<noteq> R_PROCESSING" by simp
  have f: "streams demo_delayed_world ''stream-1'' = Some demo_stream_row"
    "invocations demo_delayed_world = []" "stream_queue demo_delayed_world = []"
    "data_queue demo_delayed_world = []"
    by (simp_all add: demo_delayed_world_def demo_world_def)
  from run_not_processing_marks_stream_error[OF demo_delayed_getStreamData n,
      of "[''linkedin'' \<mapsto> demo_failing_handler]" 2]
  obtain w' row row' where
    "processStream [''linkedin'' \<mapsto> demo_failing_handler] 2 ''stream-1'' demo_delayed_world
           = (Inr (), w')"
    "streams demo_delayed_world ''stream-1'' = Some row"
    "streams w' ''stream-1'' = Some row'" "s_state row' = S_ERROR"
    "location_of (s_error row') = Some ''check-stream-run-state''"
    "invocations w' = invocations demo_delayed_world"
    "stream_queue w' = stream_queue demo_delayed_world"
    "data_queue w' = data_queue demo_delayed_world"
    by (elim exE conjE)
  with f have "processStream [''linkedin'' \<mapsto> demo_failing_handler] 2 ''stream-1'' demo_delayed_world
           = (Inr (), w')
         \<and> streams w' ''stream-1'' = Some row'
         \<and> s_state row' = S_ERROR
         \<and> location_of (s_error row') = Some ''check-stream-run-state''
         \<and> invocations w' = [] \<and> stream_queue w' = [] \<and> data_queue w' = []"
    by simp
  then have "\<exists>w' row'.
         processStream [''linkedin'' \<mapsto> demo_failing_handler] 2 ''stream-1'' demo_delayed_world
           = (Inr (), w')
         \<and> streams w' ''stream-1'' = Some row'
         \<and> s_state row' = S_ERROR
         \<and> location_of (s_error row') = Some ''check-stream-run-state''
         \<and> invocations w' = [] \<and> stream_queue w' = [] \<and> data_queue w' = []"
    by (intro exI)
  with demo_delayed_getStreamData n show ?thesis by (intro conjI)
qed

subsection \<open>Failures while publishing\<close>

lemma publish_child_runs:
  "publish_child env newId parentId tenantId runId ident payload w = (x, w1)
   \<Longrightarrow> runs w1 = runs w"
  by (auto simp: publish_child_def await_def persisting_def enqueuing_def stmt_def
        repo_publishStream_def triggerStreamProcessing_def checkUpdateRowCount_def
        split: if_splits option.splits sum.splits prod.splits)

lemma publish_item_runs:
  "publish_item env newId tenantId sid payload w = (x, w1) \<Longrightarrow> runs w1 = runs w"
  by (auto simp: publish_item_def await_def persisting_def enqueuing_def stmt_def
        repo_publishData_def triggerDataProcessing_def checkUpdateRowCount_def
        split: if_splits option.splits sum.splits prod.splits)

lemma publish_child_fails:
  "env \<noteq> InfraOk \<Longrightarrow> \<exists>e w1. publish_child env newId parentId tenantId runId ident payload w = (Inl e, w1)"
  by (cases env)
     (auto simp: publish_child_def await_def persisting_def enqueuing_def
        split: sum.splits prod.splits)

lemma publish_item_fails:
  "env \<noteq> InfraOk \<Longrightarrow> \<exists>e w1. publish_item env newId tenantId sid payload w = (Inl e, w1)"
  by (cases env)
     (auto simp: publish_item_def await_def persisting_def enqueuing_def
        split: sum.splits prod.splits)

lemma rethrow_after_run_error:
  assumes "body w = (Inl e, w1)" and "runs w1 runId = Some r"
  shows "\<exists>w' run'.
           try_catch body (\<lambda>err. await (triggerRunError runId loc msg (md err)) (\<lambda>u. reject err)) w
             = (Inl e, w')
           \<and> runs w' runId = Some run' \<and> r_state run' = R_ERROR
           \<and> location_of (r_error run') = Some loc
           \<and> streams w' = streams w1 \<and> data_rows w' = data_rows w1
           \<and> stream_queue w' = stream_queue w1 \<and> data_queue w' = data_queue w1"
proof -
  let ?run' = "r\<lparr>r_state := R_ERROR, r_processedAt := Some (clock w1),
                  r_error := Some (error_json loc msg (md e)), r_updatedAt := clock w1\<rparr>"
  let ?w' = "w1\<lparr>runs := (runs w1)(runId \<mapsto> ?run')\<rparr>"
  have "try_catch body (\<lambda>err. await (triggerRunError runId loc msg (md err)) (\<lambda>u. reject err)) w
          = (Inl e, ?w')"
    by (simp add: try_catch_def assms(1) await_def triggerRunError_ok[OF assms(2)] reject_def)
  then have "try_catch body (\<lambda>err. await (triggerRunError runId loc msg (md err)) (\<lambda>u. reject err)) w
             = (Inl e, ?w')
           \<and> runs ?w' runId = Some ?run' \<and> r_state ?run' = R_ERROR
           \<and> location_of (r_error ?run') = Some loc
           \<and> streams ?w' = streams w1 \<and> data_rows ?w' = data_rows w1
           \<and> stream_queue ?w' = stream_queue w1 \<and> data_queue ?w' = data_queue w1"
    by simp
  then show ?thesis by (intro exI)
qed


text \<open>
  Claim C9. In a stream handler's context whose run exists, when the \<open>try\<close> block of
  \<open>publishStream\<close> or of \<open>publishData\<close> fails (the insert or the enqueuing), the
  operation marks the owning run ERROR, with location \<open>run-publish-child-stream\<close> or
  \<open>run-publish-stream-data\<close>, and then rejects with the same error; it writes nothing
  on any stream. The block does fail whenever the database or the queue refuses.
\<close>

theorem publish_failure_marks_run_error:
  assumes "runs w (si_runId info) = Some r"
  shows "(\<forall>e w1. publish_child env newId streamId (si_tenantId info) (si_runId info) ident payload w
                   = (Inl e, w1) \<longrightarrow>
            (\<exists>w' run'.
               context_call info streamId (PublishStream ident payload) newId env w = (Inl e, w')
               \<and> runs w' (si_runId info) = Some run' \<and> r_state run' = R_ERROR
               \<and> location_of (r_error run') = Some ''run-publish-child-stream''
               \<and> streams w' = streams w1))
       \<and> (\<forall>e w1. publish_item env newId (si_tenantId info) streamId item w = (Inl e, w1) \<longrightarrow>
            (\<exists>w' run'.
               context_call info streamId (PublishData item) newId env w = (Inl e, w')
               \<and> runs w' (si_runId info) = Some run' \<and> r_state run' = R_ERROR
               \<and> location_of (r_error run') = Some ''run-publish-stream-data''
               \<and> streams w' = streams w1))
       \<and> (env \<noteq> InfraOk \<longrightarrow>
            (\<exists>e w1. publish_child env newId streamId (si_tenantId info) (si_runId info) ident payload w
                      = (Inl e, w1))
            \<and> (\<exists>e w1. publish_item env newId (si_tenantId info) streamId item w = (Inl e, w1)))"
proof (intro conjI allI impI)
  fix e w1
  assume b: "publish_child env newId streamId (si_tenantId info) (si_runId info) ident payload w
               = (Inl e, w1)"
  from publish_child_runs[OF b] assms have r1: "runs w1 (si_runId info) = Some r" by simp
  from rethrow_after_run_error[
      where body="publish_child env newId streamId (si_tenantId info) (si_runId info) ident payload"
        and md="\<lambda>err. Some (JObj [(''error'', json_of_thrown err)])"
        and loc="''run-publish-child-stream''" and msg="''Error while publishing child stream!''",
      OF b r1]
  obtain w' run' where
    "svc_publishStream env newId streamId (si_tenantId info) (si_runId info) ident payload w
       = (Inl e, w')"
    "runs w' (si_runId info) = Some run'" "r_state run' = R_ERROR"
    "location_of (r_error run') = Some ''run-publish-child-stream''"
    "streams w' = streams w1"
    unfolding svc_publishStream_def by (elim exE conjE)
  then have "context_call info streamId (PublishStream ident payload) newId env w = (Inl e, w')
               \<and> runs w' (si_runId info) = Some run' \<and> r_state run' = R_ERROR
               \<and> location_of (r_error run') = Some ''run-publish-child-stream''
               \<and> streams w' = streams w1"
    by simp
  then show "\<exists>w' run'.
               context_call info streamId (PublishStream ident payload) newId env w = (Inl e, w')
               \<and> runs w' (si_runId info) = Some run' \<and> r_state run' = R_ERROR
               \<and> location_of (r_error run') = Some ''run-publish-child-stream''
               \<and> streams w' = streams w1"
    by (intro exI)
next
  fix e w1
  assume b: "publish_item env newId (si_tenantId info) streamId item w = (Inl e, w1)"
  from publish_item_runs[OF b] assms have r1: "runs w1 (si_runId info) = Some r" by simp
  from rethrow_after_run_error[
      where body="publish_item env newId (si_tenantId info) streamId item"
        and md="\<lambda>err. Some (JObj [(''error'', json_of_thrown err)])"
        and loc="''run-publish-stream-data''" and msg="''Error while publishing stream data!''",
      OF b r1]
  obtain w' run' where
    "svc_publishData env newId (si_tenantId info) (si_runId info) streamId item w = (Inl e, w')"
    "runs w' (si_runId info) = Some run'" "r_state run' = R_ERROR"
    "location_of (r_error run') = Some ''run-publish-stream-data''"
    "streams w' = streams w1"
    unfolding svc_publishData_def by (elim exE conjE)
  then have "context_call info streamId (PublishData item) newId env w = (Inl e, w')
               \<and> runs w' (si_runId info) = Some run' \<and> r_state run' = R_ERROR
               \<and> location_of (r_error run') = Some ''run-publish-stream-data''
               \<and> streams w' = streams w1"
    by simp
  then show "\<exists>w' run'.
               context_call info streamId (PublishData item) newId env w = (Inl e, w')
               \<and> runs w' (si_runId info) = Some run' \<and> r_state run' = R_ERROR
               \<and> location_of (r_error run') = Some ''run-publish-stream-data''
               \<and> streams w' = streams w1"
    by (intro exI)
next
  assume "env \<noteq> InfraOk"
  then show "\<exists>e w1. publish_child env newId streamId (si_tenantId info) (si_runId info) ident payload w
                      = (Inl e, w1)"
    by (rule publish_child_fails)
next
  assume "env \<noteq> InfraOk"
  then show "\<exists>e w1. publish_item env newId (si_tenantId info) streamId item w = (Inl e, w1)"
    by (rule publish_item_fails)
qed

theorem publish_failure_marks_run_error_witness:
  "runs demo_world (si_runId demo_info) = Some demo_run_row
   \<and> publish_child PersistFails ''child-1'' ''stream-1'' (si_tenantId demo_info)
        (si_runId demo_info) ''child-a'' (Some (JObj [(''cursor'', JStr ''x'')])) demo_world
       = (Inl (Error ''database error''), demo_world)
   \<and> (\<exists>w' run'.
         context_call demo_info ''stream-1''
             (PublishStream ''child-a'' (Some (JObj [(''cursor'', JStr ''x'')])))
             ''child-1'' PersistFails demo_world
           = (Inl (Error ''database error''), w')
         \<and> runs w' ''run-1'' = Some run' \<and> r_state run' = R_ERROR
         \<and> location_of (r_error run') = Some ''run-publish-child-stream''
         \<and> streams w' = streams demo_world)
   \<and> publish_item PersistFails ''data-1'' (si_tenantId demo_info) ''stream-1''
        (JObj [(''kind'', JStr ''item'')]) demo_world
       = (Inl (Error ''database error''), demo_world)
   \<and> (\<exists>w' run'.
         context_call demo_info ''stream-1'' (PublishData (JObj [(''kind'', JStr ''item'')]))
             ''data-1'' PersistFails demo_world
           = (Inl (Error ''database error''), w')
         \<and> runs w' ''run-1'' = Some run' \<and> r_state run' = R_ERROR
         \<and> location_of (r_error run') = Some ''run-publish-stream-data''
         \<and> streams w' = streams demo_world)
   \<and> PersistFails \<noteq> InfraOk
   \<and> (\<exists>e w1. publish_child PersistFails ''child-1'' ''stream-1'' (si_tenantId demo_info)
        (si_runId demo_info) ''child-a'' (Some (JObj [(''cursor'', JStr ''x'')])) demo_world
       = (Inl e, w1))"
proof -
  have r: "runs demo_world (si_runId demo_info) = Some demo_run_row"
    by (simp add: demo_world_def demo_info_fields)
  have c: "publish_child PersistFails ''child-1'' ''stream-1'' (si_tenantId demo_info)
        (si_runId demo_info) ''child-a'' (Some (JObj [(''cursor'', JStr ''x'')])) demo_world
       = (Inl (Error ''database error''), demo_world)"
    by (simp add: publish_child_def await_def persisting_def)
  have d: "publish_item PersistFails ''data-1'' (si_tenantId demo_info) ''stream-1''
        (JObj [(''kind'', JStr ''item'')]) demo_world
       = (Inl (Error ''database error''), demo_world)"
    by (simp add: publish_item_def await_def persisting_def)
  note t = publish_failure_marks_run_error[OF r, where env=PersistFails]
  from t[THEN conjunct1, rule_format, OF c]
  have 1: "\<exists>w' run'.
         context_call demo_info ''stream-1''
             (PublishStream ''child-a'' (Some (JObj [(''cursor'', JStr ''x'')])))
             ''child-1'' PersistFails demo_world
           = (Inl (Error ''database error''), w')
         \<and> runs w' ''run-1'' = Some run' \<and> r_state run' = R_ERROR
         \<and> location_of (r_error run') = Some ''run-publish-child-stream''
         \<and> streams w' = streams demo_world"
    by (simp add: demo_info_fields)
  from t[THEN conjunct2, THEN conjunct1, rule_format, OF d]
  have 2: "\<exists>w' run'.
         context_call demo_info ''stream-1'' (PublishData (JObj [(''kind'', JStr ''item'')]))
             ''data-1'' PersistFails demo_world
           = (Inl (Error ''database error''), w')
         \<and> runs w' ''run-1'' = Some run' \<and> r_state run' = R_ERROR
         \<and> location_of (r_error run') = Some ''run-publish-stream-data''
         \<and> streams w' = streams demo_world"
    by (simp add: demo_info_fields)
  have n: "PersistFails \<noteq> InfraOk" by simp
  from t[THEN conjunct2, THEN conjunct2, rule_format, OF n, THEN conjunct1]
  have 3: "\<exists>e w1. publish_child PersistFails ''child-1'' ''stream-1'' (si_tenantId demo_info)
        (si_runId demo_info) ''child-a'' (Some (JObj [(''cursor'', JStr ''x'')])) demo_world
       = (Inl e, w1)" .
  from r c 1 d 2 n 3 show ?thesis by (intro conjI)
qed


section \<open>The queue receiver loop\<close>

lemma replace1_length: "length (replace1 x y xs) = length xs"
  by (induction xs) auto

lemma length_remove1_int:
  "x \<in> set xs \<Longrightarrow> int (length (remove1 x xs)) = int (length xs) - 1"
proof -
  assume "x \<in> set xs"
  then have "0 < length xs" by (rule length_pos_if_in_set)
  then have "int (length xs - 1) = int (length xs) - 1" by arith
  with \<open>x \<in> set xs\<close> show ?thesis by (simp add: length_remove1)
qed

lemma run_Cons_Some:
  assumes "run parse maxc s (e # es) = Some s'"
  obtains s1 where "step parse maxc s e = Some s1" and "run parse maxc s1 es = Some s'"
  using assms by (auto split: option.splits)

lemma resolved_receipts_Cons:
  "resolved_receipts (e # es) = resolved_receipts [e] @ resolved_receipts es"
  by (cases e) auto

lemma received_handles_Cons:
  "received_handles (e # es) = received_handles [e] @ received_handles es"
  by (cases "e # es" rule: received_handles.cases) auto

lemma receipts_Cons: "receipts (e # es) = receipts [e] + receipts es"
  by (cases "e # es" rule: receipts.cases) auto

lemma completions_Cons: "completions (e # es) = completions [e] + completions es"
  by (cases "e # es" rule: completions.cases) auto

lemma resolved_receipts_set:
  "receipt \<in> set (resolved_receipts evs) \<longleftrightarrow> ProcessResolves receipt \<in> set evs"
  by (induction evs rule: resolved_receipts.induct) auto

lemma received_handles_set:
  "h \<in> set (received_handles evs) \<longleftrightarrow> (\<exists>m. ReceiveResolves (Some m) \<in> set evs \<and> ReceiptHandle m = h)"
  by (induction evs rule: received_handles.induct) auto

subsection \<open>Deletion follows resolution\<close>

lemma step_delete_calls:
  "step parse maxc s e = Some s' \<Longrightarrow> delete_calls s' = delete_calls s @ resolved_receipts [e]"
  by (cases "(parse, maxc, s, e)" rule: step.cases)
     (auto simp: addJob_def removeJob_def split: if_splits option.splits loop_pc.splits)

lemma run_delete_calls:
  "run parse maxc s evs = Some s' \<Longrightarrow> delete_calls s' = delete_calls s @ resolved_receipts evs"
proof (induction evs arbitrary: s)
  case Nil
  then show ?case by simp
next
  case (Cons e es)
  from Cons.prems obtain s1 where s1: "step parse maxc s e = Some s1"
    and r: "run parse maxc s1 es = Some s'"
    by (rule run_Cons_Some)
  from Cons.IH[OF r] step_delete_calls[OF s1] show ?case
    by (simp add: resolved_receipts_Cons[of e es])
qed

lemma replace1_handles: "fst ` set (replace1 (r, a) (r, b) xs) \<subseteq> fst ` set xs"
  by (induction xs) auto

lemma remove1_handles: "fst ` set (remove1 x xs) \<subseteq> fst ` set xs"
  using set_remove1_subset[of x xs] by blast

lemma in_handles: "(r, p) \<in> set (jobs s) \<Longrightarrow> r \<in> handles s"
  by (force simp: handles_def)

lemma step_handles:
  assumes "step parse maxc s e = Some s'"
  shows "set (resolved_receipts [e]) \<union> handles s' \<subseteq> handles s \<union> set (received_handles [e])"
proof (cases e)
  case (ProcessResolves r)
  with assms have m: "(r, AwaitingProcess) \<in> set (jobs s)"
    and j: "jobs s' = replace1 (r, AwaitingProcess) (r, AwaitingDelete) (jobs s)"
    by (auto split: if_splits)
  from j replace1_handles[of r AwaitingProcess AwaitingDelete "jobs s"] in_handles[OF m] ProcessResolves
  show ?thesis by (simp add: handles_def)
next
  case (ProcessRejects r)
  with assms have "jobs s' = remove1 (r, AwaitingProcess) (jobs s)"
    by (auto split: if_splits simp: removeJob_def)
  with remove1_handles[of "(r, AwaitingProcess)" "jobs s"] ProcessRejects
  show ?thesis by (simp add: handles_def)
next
  case (DeleteResolves r)
  with assms have "jobs s' = remove1 (r, AwaitingDelete) (jobs s)"
    by (auto split: if_splits simp: removeJob_def)
  with remove1_handles[of "(r, AwaitingDelete)" "jobs s"] DeleteResolves
  show ?thesis by (simp add: handles_def)
next
  case (DeleteRejects r)
  with assms have "jobs s' = remove1 (r, AwaitingDelete) (jobs s)"
    by (auto split: if_splits simp: removeJob_def)
  with remove1_handles[of "(r, AwaitingDelete)" "jobs s"] DeleteRejects
  show ?thesis by (simp add: handles_def)
next
  case (ReceiveResolves m)
  with assms show ?thesis
    by (cases m) (auto simp: handles_def addJob_def split: if_splits option.splits)
qed (use assms in \<open>auto simp: handles_def split: if_splits loop_pc.splits\<close>)

lemma run_handles:
  "run parse maxc s evs = Some s' \<Longrightarrow>
   set (resolved_receipts evs) \<union> handles s' \<subseteq> handles s \<union> set (received_handles evs)"
proof (induction evs arbitrary: s)
  case Nil
  then show ?case by simp
next
  case (Cons e es)
  from Cons.prems obtain s1 where s1: "step parse maxc s e = Some s1"
    and r: "run parse maxc s1 es = Some s'"
    by (rule run_Cons_Some)
  from Cons.IH[OF r] step_handles[OF s1] show ?case
    by (subst resolved_receipts_Cons, subst received_handles_Cons) auto
qed

lemma demo_run:
  "run demo_parse 1 start demo_events =
     Some \<lparr>processingMessages = 1, started = True, pc = AtLoopHead,
           jobs = [(''h3'', AwaitingProcess)],
           process_calls = [JObj [], JObj [], JObj []], delete_calls = [''h1'']\<rparr>"
  by (simp add: demo_events_def demo_parse_def demo_message_def start_def isAvailable_def
        addJob_def removeJob_def)

text \<open>
  Claim C6. In a run of the receiver loop from its start, \<open>deleteMessage\<close> is called
  exactly for the resolutions of \<open>processMessage\<close>, in their order: a receipt handle is
  deleted if and only if \<open>processMessage\<close> resolved for a message with that handle, and
  every such handle is one of a received message. A rejection of \<open>processMessage\<close> adds
  no deletion.
\<close>

theorem delete_iff_process_resolves:
  assumes "run parse maxc start evs = Some s"
  shows "delete_calls s = resolved_receipts evs
         \<and> (\<forall>receipt. receipt \<in> set (delete_calls s) \<longleftrightarrow> ProcessResolves receipt \<in> set evs)
         \<and> set (delete_calls s) \<subseteq> set (received_handles evs)"
proof -
  have d: "delete_calls s = resolved_receipts evs"
    using run_delete_calls[OF assms] by (simp add: start_def)
  have "set (resolved_receipts evs) \<subseteq> set (received_handles evs)"
    using run_handles[OF assms] by (simp add: handles_def start_def)
  with d show ?thesis by (simp add: resolved_receipts_set)
qed

theorem delete_iff_process_resolves_witness:
  "run demo_parse 1 start demo_events \<noteq> None
   \<and> delete_calls (the (run demo_parse 1 start demo_events)) = [''h1'']
   \<and> ProcessResolves ''h1'' \<in> set demo_events
   \<and> ProcessRejects ''h2'' \<in> set demo_events
   \<and> ''h2'' \<notin> set (delete_calls (the (run demo_parse 1 start demo_events)))"
  using delete_iff_process_resolves[OF demo_run] demo_run
  by (simp add: demo_events_def)

subsection \<open>The counter of messages in flight\<close>

lemma step_inv:
  "step parse maxc s e = Some s' \<Longrightarrow> receiver_inv maxc s \<Longrightarrow> receiver_inv maxc s'"
  by (cases "(parse, maxc, s, e)" rule: step.cases)
     (auto simp: receiver_inv_def addJob_def removeJob_def isAvailable_def replace1_length
           length_remove1_int
           split: if_splits option.splits loop_pc.splits)

lemma step_count:
  "step parse maxc s e = Some s' \<Longrightarrow>
   processingMessages s' = processingMessages s + int (receipts [e]) - int (completions [e])"
  by (cases "(parse, maxc, s, e)" rule: step.cases)
     (auto simp: addJob_def removeJob_def split: if_splits option.splits loop_pc.splits)

lemma run_inv:
  "run parse maxc s evs = Some s' \<Longrightarrow> receiver_inv maxc s \<Longrightarrow> receiver_inv maxc s'"
proof (induction evs arbitrary: s)
  case Nil
  then show ?case by simp
next
  case (Cons e es)
  from Cons.prems(1) obtain s1 where s1: "step parse maxc s e = Some s1"
    and r: "run parse maxc s1 es = Some s'"
    by (rule run_Cons_Some)
  from Cons.IH[OF r] step_inv[OF s1 Cons.prems(2)] show ?case .
qed

lemma run_count:
  "run parse maxc s evs = Some s' \<Longrightarrow>
   processingMessages s' = processingMessages s + int (receipts evs) - int (completions evs)"
proof (induction evs arbitrary: s)
  case Nil
  then show ?case by simp
next
  case (Cons e es)
  from Cons.prems obtain s1 where s1: "step parse maxc s e = Some s1"
    and r: "run parse maxc s1 es = Some s'"
    by (rule run_Cons_Some)
  from Cons.IH[OF r] step_count[OF s1] show ?case
    by (simp add: receipts_Cons[of e es] completions_Cons[of e es])
qed

lemma inv_start: "0 \<le> maxc \<Longrightarrow> receiver_inv maxc start"
  by (simp add: receiver_inv_def start_def)

text \<open>
  Claim C7. With a maximum that is not negative, after every run of events of the
  receiver loop the counter \<open>processingMessages\<close> lies between 0 and
  \<open>maxConcurrentMessageProcessing\<close>; a receive is awaited only while the counter is
  strictly below the maximum, and otherwise the loop waits 1000 ms before it polls
  again; the counter is the number of messages received minus
  the number of promise chains that ended (each ends once: its entry in \<open>jobs\<close> is
  removed with the decrement), and it counts the chains in flight.
\<close>

theorem receiver_counter_bounded:
  assumes "0 \<le> maxc" and "run parse maxc start evs = Some s"
  shows "0 \<le> processingMessages s \<and> processingMessages s \<le> maxc
         \<and> (pc s = AwaitingReceive \<longrightarrow> processingMessages s < maxc)
         \<and> (\<forall>ms. pc s = AwaitingTimeout ms \<longrightarrow> ms = 1000)
         \<and> processingMessages s = int (receipts evs) - int (completions evs)
         \<and> processingMessages s = int (length (jobs s)) + (if pc s = ParseFailed then 1 else 0)"
proof -
  have i: "receiver_inv maxc s"
    using run_inv[OF assms(2) inv_start[OF assms(1)]] .
  have c: "processingMessages s = int (receipts evs) - int (completions evs)"
    using run_count[OF assms(2)] by (simp add: start_def)
  from i c show ?thesis by (auto simp: receiver_inv_def)
qed

theorem receiver_counter_bounded_witness:
  "(0::int) \<le> 1
   \<and> run demo_parse 1 start demo_events \<noteq> None
   \<and> processingMessages (the (run demo_parse 1 start demo_events)) = 1
   \<and> int (receipts demo_events) - int (completions demo_events) = 1"
proof -
  have h: "(0::int) \<le> 1" by simp
  from receiver_counter_bounded[OF h demo_run] demo_run show ?thesis by simp
qed


section \<open>The queue sender\<close>

lemma digit_cases: "d < 10 \<Longrightarrow> d \<in> {0, 1, 2, 3, 4, 5, 6, 7, 8, 9::nat}"
  by auto

lemma digit_value_digit: "d < 10 \<Longrightarrow> digit_value (digit d) = d"
  by (drule digit_cases) (auto simp: digit_def digit_value_def)

lemma digit_not_minus: "d < 10 \<Longrightarrow> digit d \<noteq> CHR ''-''"
  by (drule digit_cases) (auto simp: digit_def)

lemma decimal_lt: "n < 10 \<Longrightarrow> decimal n = [digit n]"
  by (subst decimal.simps) simp

lemma decimal_ge: "\<not> n < 10 \<Longrightarrow> decimal n = decimal (n div 10) @ [digit (n mod 10)]"
  by (subst decimal.simps) simp

lemma decimal_value_snoc: "decimal_value (cs @ [c]) = 10 * decimal_value cs + digit_value c"
  by (simp add: decimal_value_def)

lemma decimal_value_decimal: "decimal_value (decimal n) = n"
proof (induction n rule: decimal.induct)
  case (1 n)
  show ?case
  proof (cases "n < 10")
    case True
    then show ?thesis by (simp add: decimal_lt decimal_value_def digit_value_digit)
  next
    case False
    then have "decimal n = decimal (n div 10) @ [digit (n mod 10)]"
      by (rule decimal_ge)
    then have "decimal_value (decimal n)
        = 10 * decimal_value (decimal (n div 10)) + digit_value (digit (n mod 10))"
      by (simp only: decimal_value_snoc)
    also have "\<dots> = 10 * (n div 10) + n mod 10"
      using 1[OF False] by (simp add: digit_value_digit)
    finally show ?thesis by simp
  qed
qed

lemma decimal_inj:
  assumes "decimal m = decimal n"
  shows "m = n"
proof -
  have "m = decimal_value (decimal m)" by (simp only: decimal_value_decimal)
  also have "\<dots> = decimal_value (decimal n)" by (simp only: assms)
  also have "\<dots> = n" by (rule decimal_value_decimal)
  finally show ?thesis .
qed

lemma decimal_not_Nil: "decimal n \<noteq> []"
  by (subst decimal.simps) simp

lemma decimal_hd_not_minus: "hd (decimal n) \<noteq> CHR ''-''"
proof (induction n rule: decimal.induct)
  case (1 n)
  show ?case
  proof (cases "n < 10")
    case True
    then show ?thesis by (simp add: decimal_lt digit_not_minus)
  next
    case False
    then have "decimal n = decimal (n div 10) @ [digit (n mod 10)]"
      by (rule decimal_ge)
    then have "hd (decimal n) = hd (decimal (n div 10))"
      using decimal_not_Nil[of "n div 10"] by simp
    with 1[OF False] show ?thesis by simp
  qed
qed

lemma decimal_no_minus: "decimal n \<noteq> CHR ''-'' # cs"
  using decimal_hd_not_minus[of n] by auto

lemma number_to_string_inj:
  assumes eq: "number_to_string i = number_to_string j"
  shows "i = j"
proof (cases "i < 0")
  case True
  show ?thesis
  proof (cases "j < 0")
    case jt: True
    with True eq have "decimal (nat (- i)) = decimal (nat (- j))"
      by (simp add: number_to_string_def)
    then have "nat (- i) = nat (- j)" by (rule decimal_inj)
    with True jt show ?thesis by simp
  next
    case False
    with True eq have "decimal (nat j) = CHR ''-'' # decimal (nat (- i))"
      by (simp add: number_to_string_def)
    with decimal_no_minus show ?thesis by blast
  qed
next
  case False
  show ?thesis
  proof (cases "j < 0")
    case True
    with False eq have "decimal (nat i) = CHR ''-'' # decimal (nat (- j))"
      by (simp add: number_to_string_def)
    with decimal_no_minus show ?thesis by blast
  next
    case jf: False
    with False eq have "decimal (nat i) = decimal (nat j)"
      by (simp add: number_to_string_def)
    then have "nat i = nat j" by (rule decimal_inj)
    with False jf show ?thesis by simp
  qed
qed

lemmas send_eval =
  sendMessage_def getQueueUrl_def number_to_string_def decimal_lt decimal_ge digit_def

text \<open>What the deduplication id does tell apart: sends that read different milliseconds.\<close>

lemma dedup_ids_differ_when_times_differ:
  assumes "sendMessage True queueUrl t1 groupId body1 = Inr p1"
    and "sendMessage True queueUrl t2 groupId body2 = Inr p2"
    and "t1 \<noteq> t2"
  shows "MessageDeduplicationId p1 \<noteq> MessageDeduplicationId p2"
proof -
  from assms(1) have 1: "MessageDeduplicationId p1 = Some (groupId @ ''-'' @ number_to_string t1)"
    by (auto simp: sendMessage_def split: sum.splits)
  from assms(2) have 2: "MessageDeduplicationId p2 = Some (groupId @ ''-'' @ number_to_string t2)"
    by (auto simp: sendMessage_def split: sum.splits)
  from 1 2 assms(3) number_to_string_inj[of t1 t2] show ?thesis by auto
qed

text \<open>
  Claim C8. Every two \<open>sendMessage\<close> calls on a FIFO queue with the same group id are
  to get distinct deduplication ids, so that no message is dropped as a duplicate of
  another. The id is the group id followed by the millisecond read at the send, so
  the code misses this for two sends within one millisecond: here two messages with
  different bodies, sent under group \<open>tenant-1\<close> at time 1700000000000, both carry
  the deduplication id \<open>tenant-1-1700000000000\<close>.
\<close>

theorem same_millisecond_same_dedup_id:
  "sendMessage True (Some ''https://sqs/stream.fifo'') 1700000000000 ''tenant-1''
       ''{\"type\":\"process_stream\",\"streamId\":\"s1\"}''
     = Inr \<lparr>QueueUrl = ''https://sqs/stream.fifo'', MessageGroupId = ''tenant-1'',
            MessageDeduplicationId = Some ''tenant-1-1700000000000'',
            MessageBody = ''{\"type\":\"process_stream\",\"streamId\":\"s1\"}''\<rparr>
   \<and> sendMessage True (Some ''https://sqs/stream.fifo'') 1700000000000 ''tenant-1''
       ''{\"type\":\"process_stream\",\"streamId\":\"s2\"}''
     = Inr \<lparr>QueueUrl = ''https://sqs/stream.fifo'', MessageGroupId = ''tenant-1'',
            MessageDeduplicationId = Some ''tenant-1-1700000000000'',
            MessageBody = ''{\"type\":\"process_stream\",\"streamId\":\"s2\"}''\<rparr>"
  by (simp add: send_eval)

end
